theory Spec2Isabelle
  imports Complex_Main
begin

section \<open>The viewport engine of \<open>frontend/components/ImagePanel.tsx\<close>\<close>

text \<open>
  The component keeps a pan/zoom transform over an image drawn on a canvas whose internal
  size is the image plus a ruler margin on every side, and which the browser shows scaled
  down to fit its container. The state cells and the event handlers are modelled over
  the real numbers, without rounding: a division of a handler is written with HOL's \<open>/\<close>,
  and every statement below whose truth hangs on such a quotient assumes the divisor to be
  non-zero. The auto-zoom effect, which starts from the infinities and divides by
  quantities that can be zero, is computed in JavaScript's arithmetic with the infinities
  and \<open>NaN\<close>.
\<close>

subsection \<open>Geometry read from the DOM\<close>

text \<open>
  \<open>canvas.getBoundingClientRect()\<close>, \<open>canvas.width/height\<close> and
  \<open>img.naturalWidth/naturalHeight\<close>. The handlers start with
  \<open>if (!canvasRef.current || !imageRef.current) return\<close>; a \<open>view option\<close> is
  \<open>None\<close> when one of the refs is still null.
\<close>

record view =
  rect_left :: real
  rect_top :: real
  rect_width :: real
  rect_height :: real
  canvas_width :: nat
  canvas_height :: nat
  naturalWidth :: nat
  naturalHeight :: nat

definition js_round :: "real \<Rightarrow> int" where
  \<comment> \<open>\<open>Math.round\<close>: the nearest integer, a tie going up.\<close>
  "js_round r = \<lfloor>r + 1 / 2\<rfloor>"

definition rulerMargin :: "view \<Rightarrow> real" where
  \<comment> \<open>\<open>Math.max(60, Math.round(Math.max(img.naturalWidth, img.naturalHeight) / 20))\<close>\<close>
  "rulerMargin v =
     max 60 (of_int (js_round (max (real (naturalWidth v)) (real (naturalHeight v)) / 20)))"

definition displayScale :: "view \<Rightarrow> real" where
  \<comment> \<open>\<open>Math.min(rect.width / canvas.width, rect.height / canvas.height)\<close>\<close>
  "displayScale v =
     min (rect_width v / real (canvas_width v)) (rect_height v / real (canvas_height v))"

subsection \<open>Component state\<close>

record RegionSelection =
  reg_x :: real
  reg_y :: real
  reg_width :: real
  reg_height :: real

record BoundingBox =
  object_id :: string
  coordinates :: "(real \<times> real) list"
  confidence :: "real option"

text \<open>Calls made on the parent's callbacks, in the order they are made.\<close>

datatype call =
  OnRegionSelect "RegionSelection option"
| OnObjectSelect "string option"

text \<open>
  The \<open>useState\<close> cells of the component. A handler reads the values of the render it
  was created in and queues its writes, so a handler is a function from the state it
  reads to the state after its writes; each event is taken to meet the handlers of the
  latest render. \<open>fired\<close> logs the callback calls.
\<close>

record panel =
  imageLoaded :: bool
  scale :: real
  translateX :: real
  translateY :: real
  isPanning :: bool
  startPos :: "real \<times> real"
  isDrawingRegion :: bool
  regionStart :: "(real \<times> real) option"
  currentRegion :: "RegionSelection option"
  touchStartDistance :: real
  touchStartScale :: real
  fired :: "call list"

text \<open>The props the handlers read.\<close>

record props =
  boundingBoxes :: "BoundingBox list"
  maskUrl :: "string option"
  isRegionSelectMode :: bool
  has_onRegionSelect :: bool

definition initial :: panel where
  "initial =
     \<lparr>imageLoaded = False, scale = 1, translateX = 0, translateY = 0,
      isPanning = False, startPos = (0, 0),
      isDrawingRegion = False, regionStart = None, currentRegion = None,
      touchStartDistance = 0, touchStartScale = 1, fired = []\<rparr>"

definition onRegionSelect :: "props \<Rightarrow> RegionSelection option \<Rightarrow> panel \<Rightarrow> panel" where
  \<comment> \<open>\<open>if (onRegionSelect) { onRegionSelect(r); }\<close>\<close>
  "onRegionSelect p r s =
     (if has_onRegionSelect p then s\<lparr>fired := fired s @ [OnRegionSelect r]\<rparr> else s)"

definition onload :: "panel \<Rightarrow> panel" where
  \<comment> \<open>\<open>img.onload\<close>: the transform is reset on a new image.\<close>
  "onload s = s\<lparr>imageLoaded := True, scale := 1, translateX := 0, translateY := 0\<rparr>"

subsection \<open>Boundary solver\<close>

definition constrainPan :: "view option \<Rightarrow> real \<Rightarrow> real \<Rightarrow> real \<Rightarrow> real \<times> real" where
  "constrainPan vo newTranslateX newTranslateY currentScale =
     (case vo of
        None \<Rightarrow> (newTranslateX, newTranslateY)
      | Some v \<Rightarrow>
          if currentScale = 1 then (0, 0)
          else
            let margin = rulerMargin v;
                ds = displayScale v;
                scaledWidth = real (naturalWidth v) * ds * currentScale;
                scaledHeight = real (naturalHeight v) * ds * currentScale;
                tx = (if scaledWidth \<le> rect_width v
                      then (rect_width v / ds - real (naturalWidth v) * currentScale) / 2 - margin
                      else
                        let minTranslateX = (rect_width v - scaledWidth) / ds - margin;
                            maxTranslateX = - margin
                        in max minTranslateX (min maxTranslateX newTranslateX));
                ty = (if scaledHeight \<le> rect_height v
                      then (rect_height v / ds - real (naturalHeight v) * currentScale) / 2 - margin
                      else
                        let minTranslateY = (rect_height v - scaledHeight) / ds - margin;
                            maxTranslateY = - margin
                        in max minTranslateY (min maxTranslateY newTranslateY))
            in (tx, ty))"

definition setTranslate :: "real \<times> real \<Rightarrow> panel \<Rightarrow> panel" where
  \<comment> \<open>\<open>setTranslateX(constrained.x); setTranslateY(constrained.y)\<close>\<close>
  "setTranslate c s = s\<lparr>translateX := fst c, translateY := snd c\<rparr>"

subsection \<open>Wheel, buttons\<close>

definition handleWheel :: "view option \<Rightarrow> real \<Rightarrow> real \<Rightarrow> real \<Rightarrow> panel \<Rightarrow> panel" where
  "handleWheel vo clientX clientY deltaY s =
     (case vo of
        None \<Rightarrow> s
      | Some v \<Rightarrow>
          let margin = rulerMargin v;
              ds = displayScale v;
              mouseXDisplay = clientX - rect_left v;
              mouseYDisplay = clientY - rect_top v;
              mouseXCanvas = mouseXDisplay / ds - margin;
              mouseYCanvas = mouseYDisplay / ds - margin;
              zoomFactor = (if deltaY < 0 then 11 / 10 else 9 / 10);
              newScale = min (max 1 (scale s * zoomFactor)) 10;
              scaleChange = newScale / scale s;
              newTranslateX = mouseXCanvas - (mouseXCanvas - translateX s) * scaleChange;
              newTranslateY = mouseYCanvas - (mouseYCanvas - translateY s) * scaleChange
          in (setTranslate (constrainPan vo newTranslateX newTranslateY newScale) s)
               \<lparr>scale := newScale\<rparr>)"

definition zoomIn :: "view option \<Rightarrow> panel \<Rightarrow> panel" where
  "zoomIn vo s =
     (let newScale = min (scale s * (12 / 10)) 10
      in (setTranslate (constrainPan vo (translateX s) (translateY s) newScale) s)
           \<lparr>scale := newScale\<rparr>)"

definition zoomOut :: "view option \<Rightarrow> panel \<Rightarrow> panel" where
  "zoomOut vo s =
     (let newScale = max (scale s / (12 / 10)) 1
      in (setTranslate (constrainPan vo (translateX s) (translateY s) newScale) s)
           \<lparr>scale := newScale\<rparr>)"

definition resetView :: "panel \<Rightarrow> panel" where
  "resetView s = s\<lparr>scale := 1, translateX := 0, translateY := 0\<rparr>"

subsection \<open>Pointer position in image coordinates\<close>

definition mouseToImageCoords :: "view option \<Rightarrow> panel \<Rightarrow> real \<Rightarrow> real \<Rightarrow> (real \<times> real) option" where
  "mouseToImageCoords vo s clientX clientY =
     (case vo of
        None \<Rightarrow> None
      | Some v \<Rightarrow>
          let margin = rulerMargin v;
              ds = displayScale v;
              mouseXDisplay = clientX - rect_left v;
              mouseYDisplay = clientY - rect_top v;
              mouseXCanvas = mouseXDisplay / ds - margin;
              mouseYCanvas = mouseYDisplay / ds - margin;
              imageX = (mouseXCanvas - translateX s) / scale s;
              imageY = (mouseYCanvas - translateY s) / scale s
          in Some (imageX, imageY))"

text \<open>
  The render effect draws the image after \<open>ctx.translate(translateX + rulerMargin,
  translateY + rulerMargin); ctx.scale(scale, scale)\<close>, so the image point \<open>p\<close> is drawn at
  the canvas point \<open>p * scale + translate + rulerMargin\<close>; the browser shows the canvas
  at the position of its bounding rectangle, scaled by the display scale (the canvas keeps
  its aspect ratio on screen, so the two ratios of \<open>displayScale\<close> agree).
\<close>

definition imageToClient :: "view \<Rightarrow> panel \<Rightarrow> real \<times> real \<Rightarrow> real \<times> real" where
  "imageToClient v s p =
     ((fst p * scale s + (translateX s + rulerMargin v)) * displayScale v + rect_left v,
      (snd p * scale s + (translateY s + rulerMargin v)) * displayScale v + rect_top v)"

text \<open>
  The composite transform in the words of the specification,
  \<open>((p + margin) * scale + translate) * displayFitScale\<close>, for comparison with the
  transform the code draws with.
\<close>

definition spec_imageToClient :: "view \<Rightarrow> panel \<Rightarrow> real \<times> real \<Rightarrow> real \<times> real" where
  "spec_imageToClient v s p =
     (((fst p + rulerMargin v) * scale s + translateX s) * displayScale v + rect_left v,
      ((snd p + rulerMargin v) * scale s + translateY s) * displayScale v + rect_top v)"

subsection \<open>Mouse: panning and region drawing\<close>

definition regionBounds :: "view \<Rightarrow> real \<times> real \<Rightarrow> real \<times> real \<Rightarrow> RegionSelection" where
  \<comment> \<open>The four lines shared by \<open>handleMouseMove\<close> and \<open>handleTouchMove\<close>.\<close>
  "regionBounds v start coords =
     (let x = max 0 (min (fst start) (fst coords));
          y = max 0 (min (snd start) (snd coords));
          width = min (real (naturalWidth v) - x) \<bar>fst coords - fst start\<bar>;
          height = min (real (naturalHeight v) - y) \<bar>snd coords - snd start\<bar>
      in \<lparr>reg_x = x, reg_y = y, reg_width = width, reg_height = height\<rparr>)"

definition beginRegion :: "view option \<Rightarrow> props \<Rightarrow> real \<Rightarrow> real \<Rightarrow> panel \<Rightarrow> panel" where
  \<comment> \<open>Start of a region draw, the same in \<open>handleMouseDown\<close> and \<open>handleTouchStart\<close>.\<close>
  "beginRegion vo p clientX clientY s =
     (case mouseToImageCoords vo s clientX clientY of
        None \<Rightarrow> s
      | Some coords \<Rightarrow>
          onRegionSelect p None
            (s\<lparr>isDrawingRegion := True, regionStart := Some coords, currentRegion := None\<rparr>))"

definition beginPan :: "view \<Rightarrow> real \<Rightarrow> real \<Rightarrow> panel \<Rightarrow> panel" where
  "beginPan v clientX clientY s =
     s\<lparr>isPanning := True,
       startPos := (clientX - translateX s * displayScale v,
                    clientY - translateY s * displayScale v)\<rparr>"

definition handleMouseDown :: "view option \<Rightarrow> props \<Rightarrow> real \<Rightarrow> real \<Rightarrow> panel \<Rightarrow> panel" where
  "handleMouseDown vo p clientX clientY s =
     (case vo of
        None \<Rightarrow> s
      | Some v \<Rightarrow>
          if isRegionSelectMode p then beginRegion vo p clientX clientY s
          else beginPan v clientX clientY s)"

definition drawRegion :: "view option \<Rightarrow> real \<times> real \<Rightarrow> real \<Rightarrow> real \<Rightarrow> panel \<Rightarrow> panel" where
  "drawRegion vo start clientX clientY s =
     (case mouseToImageCoords vo s clientX clientY of
        None \<Rightarrow> s
      | Some coords \<Rightarrow>
          (case vo of
             None \<Rightarrow> s
           | Some v \<Rightarrow> s\<lparr>currentRegion := Some (regionBounds v start coords)\<rparr>))"

definition pan :: "view option \<Rightarrow> real \<Rightarrow> real \<Rightarrow> panel \<Rightarrow> panel" where
  "pan vo clientX clientY s =
     (case vo of
        None \<Rightarrow> s
      | Some v \<Rightarrow>
          let newTranslateX = (clientX - fst (startPos s)) / displayScale v;
              newTranslateY = (clientY - snd (startPos s)) / displayScale v
          in setTranslate (constrainPan vo newTranslateX newTranslateY (scale s)) s)"

definition handleMouseMove :: "view option \<Rightarrow> props \<Rightarrow> real \<Rightarrow> real \<Rightarrow> panel \<Rightarrow> panel" where
  "handleMouseMove vo p clientX clientY s =
     (case (if isDrawingRegion s \<and> isRegionSelectMode p then regionStart s else None) of
        Some start \<Rightarrow> drawRegion vo start clientX clientY s
      | None \<Rightarrow> if \<not> isPanning s then s else pan vo clientX clientY s)"

definition finishRegion :: "props \<Rightarrow> RegionSelection \<Rightarrow> panel \<Rightarrow> panel" where
  \<comment> \<open>End of a region draw, the same in \<open>handleMouseUp\<close> and \<open>handleTouchEnd\<close>.\<close>
  "finishRegion p r s =
     (if reg_width r \<ge> 10 \<and> reg_height r \<ge> 10
      then onRegionSelect p (Some r) s
      else s\<lparr>currentRegion := None\<rparr>)
     \<lparr>isDrawingRegion := False, regionStart := None\<rparr>"

definition handleMouseUp :: "props \<Rightarrow> panel \<Rightarrow> panel" where
  "handleMouseUp p s =
     (case (if isDrawingRegion s \<and> isRegionSelectMode p then currentRegion s else None) of
        Some r \<Rightarrow> finishRegion p r s
      | None \<Rightarrow> s\<lparr>isPanning := False\<rparr>)"

subsection \<open>Touch: pinch, pan and region drawing\<close>

text \<open>A touch is its \<open>(clientX, clientY)\<close>; \<open>e.touches\<close> is a list of them.\<close>

definition getTouchDistance :: "(real \<times> real) list \<Rightarrow> real" where
  "getTouchDistance touches =
     (case touches of
        touch1 # touch2 # _ \<Rightarrow>
          sqrt ((fst touch2 - fst touch1) ^ 2 + (snd touch2 - snd touch1) ^ 2)
      | _ \<Rightarrow> 0)"

definition getTouchCenter :: "(real \<times> real) list \<Rightarrow> real \<times> real" where
  "getTouchCenter touches =
     (case touches of
        [] \<Rightarrow> (0, 0)
      | [touch] \<Rightarrow> touch
      | touch1 # touch2 # _ \<Rightarrow>
          ((fst touch1 + fst touch2) / 2, (snd touch1 + snd touch2) / 2))"

definition handleTouchStart :: "view option \<Rightarrow> props \<Rightarrow> (real \<times> real) list \<Rightarrow> panel \<Rightarrow> panel" where
  "handleTouchStart vo p touches s =
     (case vo of
        None \<Rightarrow> s
      | Some v \<Rightarrow>
          if length touches = 2
          then s\<lparr>touchStartDistance := getTouchDistance touches, touchStartScale := scale s\<rparr>
          else (case touches of
                  [touch] \<Rightarrow>
                    if isRegionSelectMode p then beginRegion vo p (fst touch) (snd touch) s
                    else beginPan v (fst touch) (snd touch) s
                | _ \<Rightarrow> s))"

definition pinch :: "view \<Rightarrow> (real \<times> real) list \<Rightarrow> panel \<Rightarrow> panel" where
  \<comment> \<open>The two-finger branch of \<open>handleTouchMove\<close>.\<close>
  "pinch v touches s =
     (let distance = getTouchDistance touches;
          center = getTouchCenter touches
      in if touchStartDistance s > 0
         then
           let scaleChange = distance / touchStartDistance s;
               newScale = min (max 1 (touchStartScale s * scaleChange)) 10;
               centerXCanvas = (fst center - rect_left v) / displayScale v - rulerMargin v;
               centerYCanvas = (snd center - rect_top v) / displayScale v - rulerMargin v;
               scaleRatio = newScale / scale s;
               newTranslateX = centerXCanvas - (centerXCanvas - translateX s) * scaleRatio;
               newTranslateY = centerYCanvas - (centerYCanvas - translateY s) * scaleRatio
           in (setTranslate (constrainPan (Some v) newTranslateX newTranslateY newScale) s)
                \<lparr>scale := newScale\<rparr>
         else s)"

definition handleTouchMove :: "view option \<Rightarrow> props \<Rightarrow> (real \<times> real) list \<Rightarrow> panel \<Rightarrow> panel" where
  "handleTouchMove vo p touches s =
     (case vo of
        None \<Rightarrow> s
      | Some v \<Rightarrow>
          if length touches = 2 then pinch v touches s
          else (case touches of
                  [touch] \<Rightarrow>
                    (case (if isDrawingRegion s \<and> isRegionSelectMode p
                           then regionStart s else None) of
                       Some start \<Rightarrow> drawRegion vo start (fst touch) (snd touch) s
                     | None \<Rightarrow>
                         if isPanning s then pan vo (fst touch) (snd touch) s else s)
                | _ \<Rightarrow> s))"

definition handleTouchEnd :: "props \<Rightarrow> (real \<times> real) list \<Rightarrow> panel \<Rightarrow> panel" where
  "handleTouchEnd p touches s =
     (if length touches = 0
      then
        (case (if isDrawingRegion s \<and> isRegionSelectMode p then currentRegion s else None) of
           Some r \<Rightarrow> finishRegion p r s
         | None \<Rightarrow> s)
        \<lparr>isPanning := False, touchStartDistance := 0, touchStartScale := 1\<rparr>
      else if length touches = 1
      then s\<lparr>touchStartDistance := 0, touchStartScale := 1\<rparr>
      else s)"

subsection \<open>JavaScript numbers\<close>

text \<open>
  The auto-zoom effect starts its running minimum and maximum at the infinities and
  divides by quantities that are zero for a degenerate box or a canvas without a size on
  screen, so it is computed here in the arithmetic of JavaScript numbers: the reals with a
  negative zero, the two infinities and \<open>NaN\<close>, without rounding. \<open>Num 0\<close> is the
  positive zero.
\<close>

datatype jsnum = Num real | NegZero | PosInf | NegInf | NaN

fun signbit :: "jsnum \<Rightarrow> bool" where
  "signbit (Num a) = (a < 0)"
| "signbit NegZero = True"
| "signbit PosInf = False"
| "signbit NegInf = True"
| "signbit NaN = False"

fun infinite_js :: "jsnum \<Rightarrow> bool" where
  "infinite_js PosInf = True"
| "infinite_js NegInf = True"
| "infinite_js _ = False"

fun zero_js :: "jsnum \<Rightarrow> bool" where
  "zero_js (Num a) = (a = 0)"
| "zero_js NegZero = True"
| "zero_js _ = False"

fun magnitude :: "jsnum \<Rightarrow> real" where
  \<comment> \<open>The value of a finite number; not used on the others.\<close>
  "magnitude (Num a) = a"
| "magnitude _ = 0"

definition signed_inf :: "bool \<Rightarrow> jsnum" where
  "signed_inf negative = (if negative then NegInf else PosInf)"

definition signed_zero :: "bool \<Rightarrow> jsnum" where
  "signed_zero negative = (if negative then NegZero else Num 0)"

definition finite_result :: "bool \<Rightarrow> real \<Rightarrow> jsnum" where
  \<comment> \<open>A finite result; a zero takes the given sign.\<close>
  "finite_result negative r = (if r = 0 then signed_zero negative else Num r)"

fun js_neg :: "jsnum \<Rightarrow> jsnum" where
  "js_neg (Num a) = finite_result (0 \<le> a) (- a)"
| "js_neg NegZero = Num 0"
| "js_neg PosInf = NegInf"
| "js_neg NegInf = PosInf"
| "js_neg NaN = NaN"

definition js_mul :: "jsnum \<Rightarrow> jsnum \<Rightarrow> jsnum" where
  "js_mul x y =
     (if x = NaN \<or> y = NaN then NaN
      else if infinite_js x \<and> zero_js y \<or> zero_js x \<and> infinite_js y then NaN
      else if infinite_js x \<or> infinite_js y then signed_inf (signbit x \<noteq> signbit y)
      else finite_result (signbit x \<noteq> signbit y) (magnitude x * magnitude y))"

definition js_div :: "jsnum \<Rightarrow> jsnum \<Rightarrow> jsnum" where
  "js_div x y =
     (if x = NaN \<or> y = NaN then NaN
      else if infinite_js x \<and> infinite_js y \<or> zero_js x \<and> zero_js y then NaN
      else if infinite_js x \<or> zero_js y then signed_inf (signbit x \<noteq> signbit y)
      else if infinite_js y then signed_zero (signbit x \<noteq> signbit y)
      else finite_result (signbit x \<noteq> signbit y) (magnitude x / magnitude y))"

definition js_add :: "jsnum \<Rightarrow> jsnum \<Rightarrow> jsnum" where
  "js_add x y =
     (if x = NaN \<or> y = NaN then NaN
      else if infinite_js x \<and> infinite_js y then (if x = y then x else NaN)
      else if infinite_js x then x
      else if infinite_js y then y
      else finite_result (signbit x \<and> signbit y) (magnitude x + magnitude y))"

definition js_sub :: "jsnum \<Rightarrow> jsnum \<Rightarrow> jsnum" where
  "js_sub x y = js_add x (js_neg y)"

definition js_less :: "jsnum \<Rightarrow> jsnum \<Rightarrow> bool" where
  \<comment> \<open>\<open>x < y\<close>: false with a \<open>NaN\<close>; the two zeros are equal.\<close>
  "js_less x y =
     (x \<noteq> NaN \<and> y \<noteq> NaN
      \<and> (x = NegInf \<and> y \<noteq> NegInf \<or> y = PosInf \<and> x \<noteq> PosInf
         \<or> \<not> infinite_js x \<and> \<not> infinite_js y \<and> magnitude x < magnitude y))"

definition js_le :: "jsnum \<Rightarrow> jsnum \<Rightarrow> bool" where
  \<comment> \<open>\<open>x <= y\<close>\<close>
  "js_le x y = (x \<noteq> NaN \<and> y \<noteq> NaN \<and> \<not> js_less y x)"

definition js_min :: "jsnum \<Rightarrow> jsnum \<Rightarrow> jsnum" where
  \<comment> \<open>\<open>Math.min\<close>: \<open>NaN\<close> if either is; the negative zero is the smaller zero.\<close>
  "js_min x y =
     (if x = NaN \<or> y = NaN then NaN
      else if js_less x y then x
      else if js_less y x then y
      else if signbit x then x else y)"

definition js_max :: "jsnum \<Rightarrow> jsnum \<Rightarrow> jsnum" where
  \<comment> \<open>\<open>Math.max\<close>\<close>
  "js_max x y =
     (if x = NaN \<or> y = NaN then NaN
      else if js_less y x then x
      else if js_less x y then y
      else if signbit x then y else x)"

fun finite_value :: "jsnum \<Rightarrow> real option" where
  "finite_value (Num a) = Some a"
| "finite_value NegZero = Some 0"
| "finite_value _ = None"

subsection \<open>Auto-zoom on new detections\<close>

definition truthy :: "string option \<Rightarrow> bool" where
  \<comment> \<open>JavaScript truthiness of a \<open>string | null\<close>: \<open>null\<close> and the empty string are falsy.\<close>
  "truthy u = (case u of None \<Rightarrow> False | Some str \<Rightarrow> str \<noteq> [])"

text \<open>
  The running \<open>minX, minY, maxX, maxY\<close> of the two nested \<open>forEach\<close> loops, from
  \<open>Infinity, Infinity, -Infinity, -Infinity\<close>.
\<close>

definition grow :: "jsnum \<times> jsnum \<times> jsnum \<times> jsnum \<Rightarrow> real \<times> real
    \<Rightarrow> jsnum \<times> jsnum \<times> jsnum \<times> jsnum" where
  "grow acc c =
     (case acc of (minX, minY, maxX, maxY) \<Rightarrow>
        (js_min minX (Num (fst c)), js_min minY (Num (snd c)),
         js_max maxX (Num (fst c)), js_max maxY (Num (snd c))))"

definition extent :: "BoundingBox list \<Rightarrow> jsnum \<times> jsnum \<times> jsnum \<times> jsnum" where
  "extent boxes =
     foldl (\<lambda>acc box. foldl grow acc (coordinates box)) (PosInf, PosInf, NegInf, NegInf) boxes"

definition paddedBox :: "view \<Rightarrow> jsnum \<times> jsnum \<times> jsnum \<times> jsnum
    \<Rightarrow> jsnum \<times> jsnum \<times> jsnum \<times> jsnum" where
  \<comment> \<open>120% padding, clipped to the image.\<close>
  "paddedBox v e =
     (case e of (minX, minY, maxX, maxY) \<Rightarrow>
        let boxWidth = js_sub maxX minX;
            boxHeight = js_sub maxY minY;
            padding = js_mul (js_max boxWidth boxHeight) (Num (12 / 10))
        in (js_max (Num 0) (js_sub minX padding), js_max (Num 0) (js_sub minY padding),
            js_min (Num (real (naturalWidth v))) (js_add maxX padding),
            js_min (Num (real (naturalHeight v))) (js_add maxY padding)))"

definition imageDisplayScale :: "view \<Rightarrow> jsnum" where
  \<comment> \<open>The \<open>displayScale\<close> of the auto-zoom effect: against the image, not the canvas.\<close>
  "imageDisplayScale v =
     js_min (js_div (Num (rect_width v)) (Num (real (naturalWidth v))))
            (js_div (Num (rect_height v)) (Num (real (naturalHeight v))))"

definition targetFillRatio :: real where
  "targetFillRatio = 45 / 100"

definition fitScale :: "view \<Rightarrow> jsnum \<times> jsnum \<times> jsnum \<times> jsnum \<Rightarrow> jsnum" where
  "fitScale v b =
     (case b of (minX, minY, maxX, maxY) \<Rightarrow>
        let paddedWidth = js_sub maxX minX;
            paddedHeight = js_sub maxY minY;
            paddedWidthDisplay = js_mul paddedWidth (imageDisplayScale v);
            paddedHeightDisplay = js_mul paddedHeight (imageDisplayScale v);
            scaleX = js_div (js_mul (Num (rect_width v)) (Num targetFillRatio)) paddedWidthDisplay;
            scaleY = js_div (js_mul (Num (rect_height v)) (Num targetFillRatio)) paddedHeightDisplay;
            newScale = js_min scaleX scaleY
        in js_max (Num (12 / 10)) (js_min newScale (Num 6)))"

text \<open>
  What the effect leaves in the three state cells: a state of the panel when all three
  numbers it stores are finite, and the three numbers otherwise.
\<close>

datatype written = Finite panel | NonFinite jsnum jsnum jsnum

definition store :: "panel \<Rightarrow> jsnum \<Rightarrow> jsnum \<Rightarrow> jsnum \<Rightarrow> written" where
  \<comment> \<open>\<open>setScale(newScale); setTranslateX(newTranslateX); setTranslateY(newTranslateY)\<close>\<close>
  "store s newScale newTranslateX newTranslateY =
     (case (finite_value newScale, finite_value newTranslateX, finite_value newTranslateY) of
        (Some k, Some tx, Some ty) \<Rightarrow> Finite (s\<lparr>scale := k, translateX := tx, translateY := ty\<rparr>)
      | _ \<Rightarrow> NonFinite newScale newTranslateX newTranslateY)"

text \<open>
  The effect returns without a write while the image is not loaded, a ref is null or there
  is no box; with a mask it resets the view.
\<close>

definition autoZoom :: "view option \<Rightarrow> props \<Rightarrow> panel \<Rightarrow> written" where
  "autoZoom vo p s =
     (case vo of
        None \<Rightarrow> Finite s
      | Some v \<Rightarrow>
          if \<not> imageLoaded s \<or> boundingBoxes p = [] then Finite s
          else if truthy (maskUrl p)
          then Finite (s\<lparr>scale := 1, translateX := 0, translateY := 0\<rparr>)
          else
            (case paddedBox v (extent (boundingBoxes p)) of (minX, minY, maxX, maxY) \<Rightarrow>
               let centerX = js_div (js_add minX maxX) (Num 2);
                   centerY = js_div (js_add minY maxY) (Num 2);
                   newScale = fitScale v (minX, minY, maxX, maxY);
                   newTranslateX =
                     js_sub (js_div (js_div (Num (rect_width v)) (Num 2)) (imageDisplayScale v))
                            (js_mul centerX newScale);
                   newTranslateY =
                     js_sub (js_div (js_div (Num (rect_height v)) (Num 2)) (imageDisplayScale v))
                            (js_mul centerY newScale)
               in store s newScale newTranslateX newTranslateY))"

text \<open>
  The scale lines of \<open>handleWheel\<close>, \<open>zoomIn\<close> and \<open>zoomOut\<close> in the same arithmetic, for
  a scale that the auto-zoom has left outside the finite numbers.
\<close>

definition wheelScaleJS :: "jsnum \<Rightarrow> real \<Rightarrow> jsnum" where
  \<comment> \<open>\<open>Math.min(Math.max(1, scale * zoomFactor), 10)\<close>\<close>
  "wheelScaleJS k deltaY =
     js_min (js_max (Num 1) (js_mul k (Num (if deltaY < 0 then 11 / 10 else 9 / 10)))) (Num 10)"

definition zoomInScaleJS :: "jsnum \<Rightarrow> jsnum" where
  \<comment> \<open>\<open>Math.min(scale * 1.2, 10)\<close>\<close>
  "zoomInScaleJS k = js_min (js_mul k (Num (12 / 10))) (Num 10)"

definition zoomOutScaleJS :: "jsnum \<Rightarrow> jsnum" where
  \<comment> \<open>\<open>Math.max(scale / 1.2, 1)\<close>\<close>
  "zoomOutScaleJS k = js_max (js_div k (Num (12 / 10))) (Num 1)"

subsection \<open>The panel as a machine over its inputs\<close>

datatype event =
  Load
| Wheel real real real
| ZoomIn
| ZoomOut
| ResetView
| MouseDown real real
| MouseMove real real
| MouseUp
| TouchStart "(real \<times> real) list"
| TouchMove "(real \<times> real) list"
| TouchEnd "(real \<times> real) list"
| Detections

text \<open>
  An input is an event with the DOM geometry and the props of the moment it arrives.
  \<open>Detections\<close> is the auto-zoom effect running. A step has no next state when the
  auto-zoom stores a number that is not finite.
\<close>

fun step :: "panel \<Rightarrow> view option \<times> props \<times> event \<Rightarrow> panel option" where
  "step s (vo, p, Load) = Some (onload s)"
| "step s (vo, p, Wheel clientX clientY deltaY) = Some (handleWheel vo clientX clientY deltaY s)"
| "step s (vo, p, ZoomIn) = Some (zoomIn vo s)"
| "step s (vo, p, ZoomOut) = Some (zoomOut vo s)"
| "step s (vo, p, ResetView) = Some (resetView s)"
| "step s (vo, p, MouseDown clientX clientY) = Some (handleMouseDown vo p clientX clientY s)"
| "step s (vo, p, MouseMove clientX clientY) = Some (handleMouseMove vo p clientX clientY s)"
| "step s (vo, p, MouseUp) = Some (handleMouseUp p s)"
| "step s (vo, p, TouchStart touches) = Some (handleTouchStart vo p touches s)"
| "step s (vo, p, TouchMove touches) = Some (handleTouchMove vo p touches s)"
| "step s (vo, p, TouchEnd touches) = Some (handleTouchEnd p touches s)"
| "step s (vo, p, Detections) =
     (case autoZoom vo p s of Finite s' \<Rightarrow> Some s' | NonFinite _ _ _ \<Rightarrow> None)"

text \<open>The states after each input of a sequence, or \<open>None\<close> once a step has none.\<close>

fun run :: "panel \<Rightarrow> (view option \<times> props \<times> event) list \<Rightarrow> panel list option" where
  "run s [] = Some []"
| "run s (i # is) =
     (case step s i of
        None \<Rightarrow> None
      | Some s' \<Rightarrow> (case run s' is of None \<Rightarrow> None | Some tr \<Rightarrow> Some (s' # tr)))"

definition finiteInput :: "view option \<times> props \<times> event \<Rightarrow> bool" where
  \<comment> \<open>Detections that reach the zoom computation carry a vertex, and the canvas and
      the image have a size: the computation then stays within the finite numbers.\<close>
  "finiteInput i =
     (case i of
        (Some v, p, Detections) \<Rightarrow>
          boundingBoxes p = [] \<or> truthy (maskUrl p)
          \<or> (list_ex (\<lambda>box. coordinates box \<noteq> []) (boundingBoxes p)
              \<and> 0 < rect_width v \<and> 0 < rect_height v
              \<and> 0 < naturalWidth v \<and> 0 < naturalHeight v)
      | _ \<Rightarrow> True)"

subsection \<open>Selection blink\<close>

text \<open>
  One run of the blink effect: its closure (\<open>startTime\<close>, \<open>animationFrame\<close>, which is
  \<open>0\<close> while unassigned), the \<open>blinkOpacity\<close> cell, the parent's \<open>selectedObjectId\<close>, and
  the frame requests the browser holds for it. \<open>requestAnimationFrame\<close> hands out
  non-zero handles; a frame of the browser runs the callbacks requested before it.
  The page passes \<open>setSelectedObjectId\<close> as \<open>onObjectSelect\<close>.
\<close>

record blink =
  blinkOpacity :: real
  selectedObjectId :: "string option"
  has_onObjectSelect :: bool
  startTime :: int
  animationFrame :: nat
  pending :: "nat list"
  lastHandle :: nat
  selectCalls :: "call list"

definition blinkDuration :: int where
  "blinkDuration = 400"

definition totalBlinks :: int where
  "totalBlinks = 10"

definition totalDuration :: int where
  "totalDuration = blinkDuration * totalBlinks"

definition requestAnimationFrame :: "blink \<Rightarrow> blink" where
  \<comment> \<open>\<open>animationFrame = requestAnimationFrame(animate)\<close>\<close>
  "requestAnimationFrame b =
     (let h = Suc (lastHandle b)
      in b\<lparr>animationFrame := h, pending := pending b @ [h], lastHandle := h\<rparr>)"

definition cancelAnimationFrame :: "nat \<Rightarrow> blink \<Rightarrow> blink" where
  "cancelAnimationFrame h b = b\<lparr>pending := filter (\<lambda>k. k \<noteq> h) (pending b)\<rparr>"

definition animate :: "int \<Rightarrow> blink \<Rightarrow> blink" where
  \<comment> \<open>\<open>now\<close> is \<open>Date.now()\<close> when the callback runs.\<close>
  "animate now b =
     (let elapsed = now - startTime b
      in if elapsed \<ge> totalDuration
         then
           (let b' = b\<lparr>blinkOpacity := 4 / 10\<rparr>
            in if has_onObjectSelect b'
               then b'\<lparr>selectedObjectId := None,
                       selectCalls := selectCalls b' @ [OnObjectSelect None]\<rparr>
               else b')
         else
           requestAnimationFrame
             (b\<lparr>blinkOpacity :=
                   35 / 100 + sin (real_of_int elapsed / real_of_int blinkDuration) * (15 / 100)\<rparr>))"

definition blinkEffect :: "int \<Rightarrow> blink \<Rightarrow> blink" where
  \<comment> \<open>The effect body; \<open>now\<close> is \<open>Date.now()\<close> when it runs.\<close>
  "blinkEffect now b =
     (if \<not> truthy (selectedObjectId b) then b\<lparr>blinkOpacity := 4 / 10, animationFrame := 0\<rparr>
      else requestAnimationFrame (b\<lparr>startTime := now, animationFrame := 0\<rparr>))"

definition cleanup :: "blink \<Rightarrow> blink" where
  \<comment> \<open>\<open>if (animationFrame) { cancelAnimationFrame(animationFrame); }\<close>\<close>
  "cleanup b = (if animationFrame b \<noteq> 0 then cancelAnimationFrame (animationFrame b) b else b)"

definition select :: "string option \<Rightarrow> int \<Rightarrow> blink \<Rightarrow> blink" where
  \<comment> \<open>The prop changes: the old effect is cleaned up and the effect runs again.\<close>
  "select obj now b = blinkEffect now ((cleanup b)\<lparr>selectedObjectId := obj\<rparr>)"

definition frame :: "int \<Rightarrow> blink \<Rightarrow> blink" where
  \<comment> \<open>A frame of the browser at time \<open>now\<close>.\<close>
  "frame now b = foldl (\<lambda>b' h. animate now b') (b\<lparr>pending := []\<rparr>) (pending b)"

definition frames :: "int list \<Rightarrow> blink \<Rightarrow> blink" where
  "frames ts b = foldl (\<lambda>b' t. frame t b') b ts"

subsection \<open>Export\<close>

text \<open>
  What \<open>handleDownloadWithOverlays\<close> does to the fresh canvas: its size and the calls on
  its 2D context, in order. The text metrics of the browser are a parameter
  (\<open>measureText font label\<close> is \<open>ctx.measureText(label).width\<close> under \<open>ctx.font = font\<close>),
  as is \<open>Date.now()\<close>, which goes into the file name. The fresh canvas is taken to give a
  2D context.
\<close>

datatype draw =
  DrawImage real real
| BeginPath
| MoveTo real real
| LineTo real real
| ClosePath
| StrokeStyle string
| LineWidth real
| Stroke
| FillStyle string
| Font string
| FillRect real real real real
| FillText string real real

record export =
  export_width :: nat
  export_height :: nat
  commands :: "draw list"
  stamp :: int

definition pastelColors :: "(string \<times> string \<times> string) list" where
  \<comment> \<open>stroke, fill, label\<close>
  "pastelColors =
     [(''#60a5fa'', ''rgba(96, 165, 250, 0.3)'', ''#3b82f6''),
      (''#34d399'', ''rgba(52, 211, 153, 0.3)'', ''#10b981''),
      (''#f59e0b'', ''rgba(245, 158, 11, 0.3)'', ''#d97706''),
      (''#ec4899'', ''rgba(236, 72, 153, 0.3)'', ''#db2777''),
      (''#8b5cf6'', ''rgba(139, 92, 246, 0.3)'', ''#7c3aed''),
      (''#06b6d4'', ''rgba(6, 182, 212, 0.3)'', ''#0891b2''),
      (''#f97316'', ''rgba(249, 115, 22, 0.3)'', ''#ea580c''),
      (''#14b8a6'', ''rgba(20, 184, 166, 0.3)'', ''#0d9488''),
      (''#a855f7'', ''rgba(168, 85, 247, 0.3)'', ''#9333ea''),
      (''#ef4444'', ''rgba(239, 68, 68, 0.3)'', ''#dc2626'')]"

definition getObjectColor :: "nat \<Rightarrow> string \<times> string \<times> string" where
  "getObjectColor index = pastelColors ! (index mod length pastelColors)"

definition exportBox :: "(string \<Rightarrow> string \<Rightarrow> real) \<Rightarrow> nat \<Rightarrow> BoundingBox \<Rightarrow> draw list" where
  "exportBox measureText index box =
     (case coordinates box of
        c0 # c1 # cs \<Rightarrow>
          let coords = c0 # c1 # cs;
              objectColor = getObjectColor index;
              centerX = foldl (\<lambda>sum coord. sum + fst coord) 0 coords / real (length coords);
              centerY = foldl (\<lambda>sum coord. sum + snd coord) 0 coords / real (length coords);
              font = ''600 14px Inter, sans-serif'';
              label = object_id box;
              metrics_width = measureText font label;
              padding = 6
          in [BeginPath, MoveTo (fst c0) (snd c0)]
             @ map (\<lambda>c. LineTo (fst c) (snd c)) (c1 # cs)
             @ [ClosePath,
                StrokeStyle (fst objectColor), LineWidth 3, Stroke,
                FillStyle (snd (snd objectColor)), Font font,
                FillRect (centerX - metrics_width / 2 - padding) (centerY - 20)
                         (metrics_width + padding * 2) 22,
                FillStyle ''#000000'',
                FillText label (centerX - metrics_width / 2) (centerY - 6)]
      | _ \<Rightarrow> [])"

definition handleDownloadWithOverlays ::
    "view option \<Rightarrow> props \<Rightarrow> panel \<Rightarrow> (string \<Rightarrow> string \<Rightarrow> real) \<Rightarrow> int \<Rightarrow> export option" where
  "handleDownloadWithOverlays vo p s measureText now =
     (case vo of
        None \<Rightarrow> None
      | Some v \<Rightarrow>
          if \<not> imageLoaded s then None
          else
            Some \<lparr>export_width = naturalWidth v,
                  export_height = naturalHeight v,
                  commands =
                    DrawImage 0 0
                    # concat (map (\<lambda>(index, box). exportBox measureText index box)
                                (enumerate 0 (boundingBoxes p))),
                  stamp = now\<rparr>)"

section \<open>Quantities named in the statements\<close>

subsection \<open>Boundary solver\<close>

text \<open>
  The locals \<open>scaledWidth\<close>, \<open>scaledHeight\<close>, \<open>minTranslateX\<close> and \<open>minTranslateY\<close> of
  \<open>constrainPan\<close>, and the gaps between the drawn image and the edges of the canvas
  rectangle on screen (a gap is negative where the image reaches past the edge).
\<close>

definition scaledWidth :: "view \<Rightarrow> real \<Rightarrow> real" where
  "scaledWidth v cs = real (naturalWidth v) * displayScale v * cs"

definition scaledHeight :: "view \<Rightarrow> real \<Rightarrow> real" where
  "scaledHeight v cs = real (naturalHeight v) * displayScale v * cs"

definition minTranslateX :: "view \<Rightarrow> real \<Rightarrow> real" where
  "minTranslateX v cs = (rect_width v - scaledWidth v cs) / displayScale v - rulerMargin v"

definition minTranslateY :: "view \<Rightarrow> real \<Rightarrow> real" where
  "minTranslateY v cs = (rect_height v - scaledHeight v cs) / displayScale v - rulerMargin v"

definition placed :: "panel \<Rightarrow> real \<Rightarrow> real \<times> real \<Rightarrow> panel" where
  \<comment> \<open>The state with a given scale and translate.\<close>
  "placed s cs t = s\<lparr>scale := cs, translateX := fst t, translateY := snd t\<rparr>"

definition leftGap :: "view \<Rightarrow> panel \<Rightarrow> real" where
  "leftGap v s = fst (imageToClient v s (0, 0)) - rect_left v"

definition rightGap :: "view \<Rightarrow> panel \<Rightarrow> real" where
  "rightGap v s =
     rect_left v + rect_width v
     - fst (imageToClient v s (real (naturalWidth v), real (naturalHeight v)))"

definition topGap :: "view \<Rightarrow> panel \<Rightarrow> real" where
  "topGap v s = snd (imageToClient v s (0, 0)) - rect_top v"

definition bottomGap :: "view \<Rightarrow> panel \<Rightarrow> real" where
  "bottomGap v s =
     rect_top v + rect_height v
     - snd (imageToClient v s (real (naturalWidth v), real (naturalHeight v)))"

subsection \<open>Focal zoom in the words of the specification\<close>

text \<open>
  \<open>translate' = pointerRS - (pointerRS - translate) * (scale' / scale)\<close>, with the pointer
  taken to canvas coordinates less the margin, and the two clamped scales.
\<close>

definition focalTranslate :: "view \<Rightarrow> panel \<Rightarrow> real \<times> real \<Rightarrow> real \<Rightarrow> real \<times> real" where
  "focalTranslate v s c newScale =
     (let pointerX = (fst c - rect_left v) / displayScale v - rulerMargin v;
          pointerY = (snd c - rect_top v) / displayScale v - rulerMargin v
      in (pointerX - (pointerX - translateX s) * (newScale / scale s),
          pointerY - (pointerY - translateY s) * (newScale / scale s)))"

definition wheelScale :: "panel \<Rightarrow> real \<Rightarrow> real" where
  "wheelScale s deltaY = min (max 1 (scale s * (if deltaY < 0 then 11 / 10 else 9 / 10))) 10"

definition pinchScale :: "panel \<Rightarrow> (real \<times> real) list \<Rightarrow> real" where
  "pinchScale s touches =
     min (max 1 (touchStartScale s * (getTouchDistance touches / touchStartDistance s))) 10"

subsection \<open>Scale invariant\<close>

definition scaleOk :: "panel \<Rightarrow> bool" where
  "scaleOk s = (1 \<le> scale s \<and> scale s \<le> 10)"

subsection \<open>Region drawing in the words of the specification\<close>

text \<open>
  The rectangle spanned by the anchor and the pointer, clipped to the image: both of its
  edges on each axis are brought into \<open>[0, width]\<close> and \<open>[0, height]\<close>.
\<close>

definition spec_region :: "view \<Rightarrow> real \<times> real \<Rightarrow> real \<times> real \<Rightarrow> RegionSelection" where
  "spec_region v anchor cur =
     (let left = max 0 (min (real (naturalWidth v)) (min (fst anchor) (fst cur)));
          right = max 0 (min (real (naturalWidth v)) (max (fst anchor) (fst cur)));
          top = max 0 (min (real (naturalHeight v)) (min (snd anchor) (snd cur)));
          bottom = max 0 (min (real (naturalHeight v)) (max (snd anchor) (snd cur)))
      in \<lparr>reg_x = left, reg_y = top, reg_width = right - left, reg_height = bottom - top\<rparr>)"

definition regionSelection :: "call list \<Rightarrow> RegionSelection option" where
  \<comment> \<open>The parent's selection after the calls: the page starts it at \<open>null\<close> and passes
      \<open>setRegionSelection\<close> as \<open>onRegionSelect\<close>.\<close>
  "regionSelection calls =
     foldl (\<lambda>cur c. case c of OnRegionSelect r \<Rightarrow> r | OnObjectSelect _ \<Rightarrow> cur) None calls"

definition acceptable :: "RegionSelection \<Rightarrow> bool" where
  "acceptable r = (10 \<le> reg_width r \<and> 10 \<le> reg_height r)"

subsection \<open>Blink: states of one run\<close>

definition blinking :: "int \<Rightarrow> blink \<Rightarrow> bool" where
  \<comment> \<open>The run started at \<open>t0\<close> has its one frame request out.\<close>
  "blinking t0 b =
     (startTime b = t0 \<and> pending b = [animationFrame b] \<and> animationFrame b \<noteq> 0)"

definition tracked :: "blink \<Rightarrow> bool" where
  \<comment> \<open>No frame request is out but the one the closure holds.\<close>
  "tracked b = (pending b = [] \<or> pending b = [animationFrame b] \<and> animationFrame b \<noteq> 0)"

subsection \<open>Auto-zoom in the words of the specification\<close>

text \<open>
  Over the reals: the bounding box of all vertices, its padding by 1.2 times its larger
  side clipped to the image, the display scale of the effect, and the derived scale
  \<open>min (containerWidth * 0.45 / paddedWidthDisplay) (containerHeight * 0.45 / paddedHeightDisplay)\<close>
  clamped to \<open>[1.2, 6]\<close>, where a quotient over a padded size of zero counts as larger
  than any number (JavaScript's \<open>Infinity\<close>).
\<close>

definition vertices :: "BoundingBox list \<Rightarrow> (real \<times> real) list" where
  "vertices boxes = concat (map coordinates boxes)"

definition spec_boundingBox :: "BoundingBox list \<Rightarrow> real \<times> real \<times> real \<times> real" where
  "spec_boundingBox boxes =
     (Min (fst ` set (vertices boxes)), Min (snd ` set (vertices boxes)),
      Max (fst ` set (vertices boxes)), Max (snd ` set (vertices boxes)))"

definition spec_paddedBox :: "view \<Rightarrow> BoundingBox list \<Rightarrow> real \<times> real \<times> real \<times> real" where
  "spec_paddedBox v boxes =
     (case spec_boundingBox boxes of (minX, minY, maxX, maxY) \<Rightarrow>
        let padding = max (maxX - minX) (maxY - minY) * (12 / 10)
        in (max 0 (minX - padding), max 0 (minY - padding),
            min (real (naturalWidth v)) (maxX + padding),
            min (real (naturalHeight v)) (maxY + padding)))"

definition spec_displayScale :: "view \<Rightarrow> real" where
  "spec_displayScale v =
     min (rect_width v / real (naturalWidth v)) (rect_height v / real (naturalHeight v))"

definition spec_fitScale :: "view \<Rightarrow> BoundingBox list \<Rightarrow> real" where
  "spec_fitScale v boxes =
     (case spec_paddedBox v boxes of (minX, minY, maxX, maxY) \<Rightarrow>
        let paddedWidthDisplay = (maxX - minX) * spec_displayScale v;
            paddedHeightDisplay = (maxY - minY) * spec_displayScale v;
            scaleX = rect_width v * (45 / 100) / paddedWidthDisplay;
            scaleY = rect_height v * (45 / 100) / paddedHeightDisplay
        in max (12 / 10)
             (if paddedWidthDisplay = 0 \<and> paddedHeightDisplay = 0 then 6
              else if paddedWidthDisplay = 0 then min scaleY 6
              else if paddedHeightDisplay = 0 then min scaleX 6
              else min (min scaleX scaleY) 6))"







text \<open>
  The accumulator of the two \<open>forEach\<close> loops after the vertices \<open>vs\<close>.
\<close>

definition bounds :: "(real \<times> real) list \<Rightarrow> jsnum \<times> jsnum \<times> jsnum \<times> jsnum" where
  "bounds vs =
     (if vs = [] then (PosInf, PosInf, NegInf, NegInf)
      else (Num (Min (fst ` set vs)), Num (Min (snd ` set vs)),
            Num (Max (fst ` set vs)), Num (Max (snd ` set vs))))"

section \<open>Scenarios\<close>

text \<open>
  \<open>view0\<close>: a 1000 by 1000 image (margin 60, canvas 1120 by 1120) shown at half size.
  \<open>view1\<close>: a 1000 by 800 image (margin 60, canvas 1120 by 920) shown one to one.
\<close>

definition view0 :: view where
  "view0 = \<lparr>rect_left = 0, rect_top = 0, rect_width = 560, rect_height = 560,
             canvas_width = 1120, canvas_height = 1120,
             naturalWidth = 1000, naturalHeight = 1000\<rparr>"

definition view1 :: view where
  "view1 = \<lparr>rect_left = 0, rect_top = 0, rect_width = 1120, rect_height = 920,
             canvas_width = 1120, canvas_height = 920,
             naturalWidth = 1000, naturalHeight = 800\<rparr>"

definition loaded :: panel where
  "loaded = initial\<lparr>imageLoaded := True\<rparr>"

definition zoomed2 :: panel where
  "zoomed2 = initial\<lparr>imageLoaded := True, scale := 2\<rparr>"

definition deep :: panel where
  "deep = initial\<lparr>imageLoaded := True, scale := 4, translateX := - 1000, translateY := - 1000,
                    touchStartDistance := 100, touchStartScale := 4\<rparr>"

definition spread :: "(real \<times> real) list" where
  "spread = [(225, 280), (335, 280)]"

definition plain :: props where
  "plain = \<lparr>boundingBoxes = [], maskUrl = None, isRegionSelectMode = False,
             has_onRegionSelect = True\<rparr>"

definition regionMode :: props where
  "regionMode = \<lparr>boundingBoxes = [], maskUrl = None, isRegionSelectMode = True,
                  has_onRegionSelect = True\<rparr>"

definition quad :: BoundingBox where
  "quad = \<lparr>object_id = ''obj_1'',
            coordinates = [(100, 100), (300, 100), (300, 300), (100, 300)],
            confidence = None\<rparr>"

definition found :: props where
  "found = \<lparr>boundingBoxes = [quad], maskUrl = None, isRegionSelectMode = False,
             has_onRegionSelect = True\<rparr>"

definition session :: "(view option \<times> props \<times> event) list" where
  "session =
     [(Some view0, found, Load),
      (Some view0, found, Detections),
      (Some view0, found, Wheel 100 100 (- 1)),
      (Some view0, found, ZoomIn),
      (Some view0, found, TouchStart [(200, 280), (300, 280)]),
      (Some view0, found, TouchMove [(0, 280), (500, 280)]),
      (Some view0, found, TouchEnd []),
      (Some view0, found, ZoomOut),
      (Some view0, found, ResetView),
      (Some view0, found, ZoomOut)]"

definition picked :: RegionSelection where
  "picked = \<lparr>reg_x = 40, reg_y = 40, reg_width = 15, reg_height = 15\<rparr>"

definition sliver :: RegionSelection where
  "sliver = \<lparr>reg_x = 40, reg_y = 40, reg_width = 15, reg_height = 9\<rparr>"

definition drawing :: "RegionSelection \<Rightarrow> panel" where
  \<comment> \<open>In the middle of a region draw, with \<open>r\<close> as the rectangle so far.\<close>
  "drawing r = initial\<lparr>imageLoaded := True, isDrawingRegion := True,
                        regionStart := Some (40, 40), currentRegion := Some r,
                        fired := [OnRegionSelect None]\<rparr>"

definition resting :: blink where
  "resting = \<lparr>blinkOpacity = 4 / 10, selectedObjectId = None, has_onObjectSelect = True,
              startTime = 0, animationFrame = 0, pending = [], lastHandle = 0,
              selectCalls = []\<rparr>"

definition flatText :: "string \<Rightarrow> string \<Rightarrow> real" where
  \<comment> \<open>A text metric of 8 pixels per character, whatever the font.\<close>
  "flatText font label = 8 * real (length label)"

text \<open>
  \<open>hidden\<close>: the canvas of a 1000 by 1000 image while it has no box on screen
  (\<open>getBoundingClientRect\<close> is 0 by 0). \<open>dot\<close>: one detection with a single vertex.
  \<open>hollow\<close>: one detection without vertices. \<open>central\<close>: one detection in the middle of the
  image, whose padding is not clipped.
\<close>

definition hidden :: view where
  "hidden = \<lparr>rect_left = 0, rect_top = 0, rect_width = 0, rect_height = 0,
              canvas_width = 1120, canvas_height = 1120,
              naturalWidth = 1000, naturalHeight = 1000\<rparr>"

definition dot :: props where
  "dot = \<lparr>boundingBoxes = [\<lparr>object_id = ''obj_1'', coordinates = [(200, 200)], confidence = None\<rparr>],
           maskUrl = None, isRegionSelectMode = False, has_onRegionSelect = True\<rparr>"

definition hollow :: props where
  "hollow = \<lparr>boundingBoxes = [\<lparr>object_id = ''obj_1'', coordinates = [], confidence = None\<rparr>],
           maskUrl = None, isRegionSelectMode = False, has_onRegionSelect = True\<rparr>"


section \<open>Properties\<close>

subsection \<open>Boundary solver\<close>

lemma constrainPan_x:
  "cs \<noteq> 1 \<Longrightarrow> fst (constrainPan (Some v) tx ty cs) =
     (if scaledWidth v cs \<le> rect_width v
      then (rect_width v / displayScale v - real (naturalWidth v) * cs) / 2 - rulerMargin v
      else max (minTranslateX v cs) (min (- rulerMargin v) tx))"
  by (simp add: constrainPan_def Let_def scaledWidth_def minTranslateX_def)

lemma constrainPan_y:
  "cs \<noteq> 1 \<Longrightarrow> snd (constrainPan (Some v) tx ty cs) =
     (if scaledHeight v cs \<le> rect_height v
      then (rect_height v / displayScale v - real (naturalHeight v) * cs) / 2 - rulerMargin v
      else max (minTranslateY v cs) (min (- rulerMargin v) ty))"
  by (simp add: constrainPan_def Let_def scaledHeight_def minTranslateY_def)

lemma minTranslateX_le:
  assumes "0 < displayScale v" "rect_width v < scaledWidth v cs"
  shows "minTranslateX v cs \<le> - rulerMargin v"
proof -
  have "(rect_width v - scaledWidth v cs) / displayScale v < 0"
    using assms by (simp add: divide_neg_pos)
  then show ?thesis by (simp add: minTranslateX_def)
qed

lemma minTranslateX_edge:
  assumes "0 < displayScale v"
  shows "(real (naturalWidth v) * cs + (minTranslateX v cs + rulerMargin v)) * displayScale v = rect_width v"
  using assms by (simp add: minTranslateX_def scaledWidth_def field_simps)

lemma minTranslateY_le:
  assumes "0 < displayScale v" "rect_height v < scaledHeight v cs"
  shows "minTranslateY v cs \<le> - rulerMargin v"
proof -
  have "(rect_height v - scaledHeight v cs) / displayScale v < 0"
    using assms by (simp add: divide_neg_pos)
  then show ?thesis by (simp add: minTranslateY_def)
qed

lemma minTranslateY_edge:
  assumes "0 < displayScale v"
  shows "(real (naturalHeight v) * cs + (minTranslateY v cs + rulerMargin v)) * displayScale v = rect_height v"
  using assms by (simp add: minTranslateY_def scaledHeight_def field_simps)

lemma gaps_x:
  "leftGap v (placed s cs t) = (fst t + rulerMargin v) * displayScale v"
  "rightGap v (placed s cs t) =
     rect_width v - (real (naturalWidth v) * cs + (fst t + rulerMargin v)) * displayScale v"
  by (simp_all add: leftGap_def rightGap_def placed_def imageToClient_def)

lemma gaps_y:
  "topGap v (placed s cs t) = (snd t + rulerMargin v) * displayScale v"
  "bottomGap v (placed s cs t) =
     rect_height v - (real (naturalHeight v) * cs + (snd t + rulerMargin v)) * displayScale v"
  by (simp_all add: topGap_def bottomGap_def placed_def imageToClient_def)

lemma axis_x:
  assumes "cs \<noteq> 1" "0 < displayScale v"
  shows "(scaledWidth v cs \<le> rect_width v \<longrightarrow>
           fst (constrainPan (Some v) tx ty cs) =
             (rect_width v / displayScale v - real (naturalWidth v) * cs) / 2 - rulerMargin v
           \<and> leftGap v (placed s cs (constrainPan (Some v) tx ty cs)) =
               rightGap v (placed s cs (constrainPan (Some v) tx ty cs)))
       \<and> (rect_width v < scaledWidth v cs \<longrightarrow>
           fst (constrainPan (Some v) tx ty cs) =
             max (minTranslateX v cs) (min (- rulerMargin v) tx)
           \<and> minTranslateX v cs \<le> fst (constrainPan (Some v) tx ty cs)
           \<and> fst (constrainPan (Some v) tx ty cs) \<le> - rulerMargin v
           \<and> leftGap v (placed s cs (constrainPan (Some v) tx ty cs)) \<le> 0
           \<and> rightGap v (placed s cs (constrainPan (Some v) tx ty cs)) \<le> 0)"
proof (intro conjI impI)
  assume c: "scaledWidth v cs \<le> rect_width v"
  show e: "fst (constrainPan (Some v) tx ty cs) =
     (rect_width v / displayScale v - real (naturalWidth v) * cs) / 2 - rulerMargin v"
    using assms c by (simp add: constrainPan_x)
  show "leftGap v (placed s cs (constrainPan (Some v) tx ty cs)) =
        rightGap v (placed s cs (constrainPan (Some v) tx ty cs))"
    using assms(2) by (simp add: gaps_x e field_simps)
next
  assume c: "rect_width v < scaledWidth v cs"
  let ?x = "fst (constrainPan (Some v) tx ty cs)"
  show e: "?x = max (minTranslateX v cs) (min (- rulerMargin v) tx)"
    using assms c by (simp add: constrainPan_x)
  have le: "minTranslateX v cs \<le> - rulerMargin v"
    using assms(2) c by (rule minTranslateX_le)
  show lo: "minTranslateX v cs \<le> ?x" by (simp add: e)
  show hi: "?x \<le> - rulerMargin v" using le by (simp add: e)
  have "(?x + rulerMargin v) * displayScale v \<le> 0"
    using hi assms(2) by (simp add: mult_le_0_iff)
  then show "leftGap v (placed s cs (constrainPan (Some v) tx ty cs)) \<le> 0"
    by (simp add: gaps_x)
  have "(real (naturalWidth v) * cs + (minTranslateX v cs + rulerMargin v)) * displayScale v
        \<le> (real (naturalWidth v) * cs + (?x + rulerMargin v)) * displayScale v"
    using lo assms(2) by (simp add: mult_right_mono)
  then have "rect_width v \<le> (real (naturalWidth v) * cs + (?x + rulerMargin v)) * displayScale v"
    using minTranslateX_edge [OF assms(2)] by simp
  then show "rightGap v (placed s cs (constrainPan (Some v) tx ty cs)) \<le> 0"
    by (simp add: gaps_x)
qed

lemma axis_y:
  assumes "cs \<noteq> 1" "0 < displayScale v"
  shows "(scaledHeight v cs \<le> rect_height v \<longrightarrow>
           snd (constrainPan (Some v) tx ty cs) =
             (rect_height v / displayScale v - real (naturalHeight v) * cs) / 2 - rulerMargin v
           \<and> topGap v (placed s cs (constrainPan (Some v) tx ty cs)) =
               bottomGap v (placed s cs (constrainPan (Some v) tx ty cs)))
       \<and> (rect_height v < scaledHeight v cs \<longrightarrow>
           snd (constrainPan (Some v) tx ty cs) =
             max (minTranslateY v cs) (min (- rulerMargin v) ty)
           \<and> minTranslateY v cs \<le> snd (constrainPan (Some v) tx ty cs)
           \<and> snd (constrainPan (Some v) tx ty cs) \<le> - rulerMargin v
           \<and> topGap v (placed s cs (constrainPan (Some v) tx ty cs)) \<le> 0
           \<and> bottomGap v (placed s cs (constrainPan (Some v) tx ty cs)) \<le> 0)"
proof (intro conjI impI)
  assume c: "scaledHeight v cs \<le> rect_height v"
  show e: "snd (constrainPan (Some v) tx ty cs) =
     (rect_height v / displayScale v - real (naturalHeight v) * cs) / 2 - rulerMargin v"
    using assms c by (simp add: constrainPan_y)
  show "topGap v (placed s cs (constrainPan (Some v) tx ty cs)) =
        bottomGap v (placed s cs (constrainPan (Some v) tx ty cs))"
    using assms(2) by (simp add: gaps_y e field_simps)
next
  assume c: "rect_height v < scaledHeight v cs"
  let ?x = "snd (constrainPan (Some v) tx ty cs)"
  show e: "?x = max (minTranslateY v cs) (min (- rulerMargin v) ty)"
    using assms c by (simp add: constrainPan_y)
  have le: "minTranslateY v cs \<le> - rulerMargin v"
    using assms(2) c by (rule minTranslateY_le)
  show lo: "minTranslateY v cs \<le> ?x" by (simp add: e)
  show hi: "?x \<le> - rulerMargin v" using le by (simp add: e)
  have "(?x + rulerMargin v) * displayScale v \<le> 0"
    using hi assms(2) by (simp add: mult_le_0_iff)
  then show "topGap v (placed s cs (constrainPan (Some v) tx ty cs)) \<le> 0"
    by (simp add: gaps_y)
  have "(real (naturalHeight v) * cs + (minTranslateY v cs + rulerMargin v)) * displayScale v
        \<le> (real (naturalHeight v) * cs + (?x + rulerMargin v)) * displayScale v"
    using lo assms(2) by (simp add: mult_right_mono)
  then have "rect_height v \<le> (real (naturalHeight v) * cs + (?x + rulerMargin v)) * displayScale v"
    using minTranslateY_edge [OF assms(2)] by simp
  then show "bottomGap v (placed s cs (constrainPan (Some v) tx ty cs)) \<le> 0"
    by (simp add: gaps_y)
qed

lemma view0_margin: "rulerMargin view0 = 60"
  by (simp add: rulerMargin_def view0_def js_round_def)

lemma view0_ds: "displayScale view0 = 1 / 2"
  by (simp add: displayScale_def view0_def)

text \<open>
  Claim C3. At scale 1 the boundary solver returns \<open>(0, 0)\<close> whatever translate is asked
  for. Above scale 1, with a canvas shown at a positive display scale, each axis is treated
  on its own: where the scaled image is no larger than the container the translate is the
  centring one (the gaps on both sides of the drawn image are equal); otherwise the
  requested translate is clamped into \<open>[(container - scaledSize) / displayScale - margin,
  - margin]\<close>, and the drawn image then covers the container on that axis (no gap on
  either side).
\<close>

theorem constrainPan_solver:
  "constrainPan (Some v) tx ty 1 = (0, 0)
   \<and> (1 < cs \<and> 0 < displayScale v \<longrightarrow>
       (scaledWidth v cs \<le> rect_width v \<longrightarrow>
           fst (constrainPan (Some v) tx ty cs) =
             (rect_width v / displayScale v - real (naturalWidth v) * cs) / 2 - rulerMargin v
           \<and> leftGap v (placed s cs (constrainPan (Some v) tx ty cs)) =
               rightGap v (placed s cs (constrainPan (Some v) tx ty cs)))
       \<and> (rect_width v < scaledWidth v cs \<longrightarrow>
           fst (constrainPan (Some v) tx ty cs) =
             max (minTranslateX v cs) (min (- rulerMargin v) tx)
           \<and> minTranslateX v cs \<le> fst (constrainPan (Some v) tx ty cs)
           \<and> fst (constrainPan (Some v) tx ty cs) \<le> - rulerMargin v
           \<and> leftGap v (placed s cs (constrainPan (Some v) tx ty cs)) \<le> 0
           \<and> rightGap v (placed s cs (constrainPan (Some v) tx ty cs)) \<le> 0)
       \<and> (scaledHeight v cs \<le> rect_height v \<longrightarrow>
           snd (constrainPan (Some v) tx ty cs) =
             (rect_height v / displayScale v - real (naturalHeight v) * cs) / 2 - rulerMargin v
           \<and> topGap v (placed s cs (constrainPan (Some v) tx ty cs)) =
               bottomGap v (placed s cs (constrainPan (Some v) tx ty cs)))
       \<and> (rect_height v < scaledHeight v cs \<longrightarrow>
           snd (constrainPan (Some v) tx ty cs) =
             max (minTranslateY v cs) (min (- rulerMargin v) ty)
           \<and> minTranslateY v cs \<le> snd (constrainPan (Some v) tx ty cs)
           \<and> snd (constrainPan (Some v) tx ty cs) \<le> - rulerMargin v
           \<and> topGap v (placed s cs (constrainPan (Some v) tx ty cs)) \<le> 0
           \<and> bottomGap v (placed s cs (constrainPan (Some v) tx ty cs)) \<le> 0))"
proof (intro conjI impI)
  show "constrainPan (Some v) tx ty 1 = (0, 0)"
    by (simp add: constrainPan_def)
qed (use axis_x [of cs v tx ty s] axis_y [of cs v tx ty s] in simp_all)

text \<open>
  On the 1000 by 1000 image shown at half size: at scale 2 the image is larger than the
  container and the request \<open>(5, -2000)\<close> is clamped to \<open>(-60, -940)\<close>; at scale 1.1 it is
  smaller and is centred at \<open>(-50, -50)\<close>.
\<close>

theorem constrainPan_solver_witness:
  "constrainPan (Some view0) 5 (- 2000) 1 = (0, 0)
   \<and> (1::real) < 2 \<and> 0 < displayScale view0
   \<and> rect_width view0 < scaledWidth view0 2
   \<and> rect_height view0 < scaledHeight view0 2
   \<and> constrainPan (Some view0) 5 (- 2000) 2 = (- 60, - 940)
   \<and> leftGap view0 (placed initial 2 (constrainPan (Some view0) 5 (- 2000) 2)) \<le> 0
   \<and> bottomGap view0 (placed initial 2 (constrainPan (Some view0) 5 (- 2000) 2)) \<le> 0
   \<and> (1::real) < 11 / 10
   \<and> scaledWidth view0 (11 / 10) \<le> rect_width view0
   \<and> scaledHeight view0 (11 / 10) \<le> rect_height view0
   \<and> constrainPan (Some view0) 5 (- 2000) (11 / 10) = (- 50, - 50)
   \<and> leftGap view0 (placed initial (11 / 10) (constrainPan (Some view0) 5 (- 2000) (11 / 10)))
       = rightGap view0 (placed initial (11 / 10) (constrainPan (Some view0) 5 (- 2000) (11 / 10)))"
proof -
  have e: "constrainPan (Some view0) 5 (- 2000) 2 = (- 60, - 940)"
    by (simp add: constrainPan_def Let_def view0_margin view0_ds) (simp add: view0_def)
  have c: "constrainPan (Some view0) 5 (- 2000) (11 / 10) = (- 50, - 50)"
    by (simp add: constrainPan_def Let_def view0_margin view0_ds) (simp add: view0_def)
  have h: "(1::real) < 2 \<and> 0 < displayScale view0" "(1::real) < 11 / 10"
    by (simp_all add: view0_ds)
  have w: "rect_width view0 < scaledWidth view0 2" "rect_height view0 < scaledHeight view0 2"
    "scaledWidth view0 (11 / 10) \<le> rect_width view0"
    "scaledHeight view0 (11 / 10) \<le> rect_height view0"
    by (simp_all add: scaledWidth_def scaledHeight_def view0_ds) (simp_all add: view0_def)
  show ?thesis
    using constrainPan_solver [of view0 5 "- 2000" 2 initial]
      constrainPan_solver [of view0 5 "- 2000" "11 / 10" initial] h w e c
    by simp
qed

subsection \<open>Coordinate round trip and focal zoom\<close>

lemma roundtrip:
  assumes "scale s \<noteq> 0" "displayScale v \<noteq> 0"
  shows "mouseToImageCoords (Some v) s (fst (imageToClient v s p)) (snd (imageToClient v s p)) = Some p"
  using assms by (simp add: mouseToImageCoords_def imageToClient_def Let_def)

text \<open>
  Claim C7, as amended. The transform the code draws with is
  \<open>(p * scale + translate + margin) * displayScale\<close>: the margin is added after the
  scaling, not scaled with the point. For every image point and every transform state with
  \<open>scale \<ge> 1\<close>, on a canvas shown at a non-zero display scale, the pointer-to-image
  mapping applied to the client position of the drawn point returns the point.
\<close>

theorem roundtrip_drawn:
  assumes "1 \<le> scale s" "displayScale v \<noteq> 0"
  shows "mouseToImageCoords (Some v) s (fst (imageToClient v s p)) (snd (imageToClient v s p)) = Some p"
  using assms by (intro roundtrip) auto

text \<open>
  The round trip at scale 2 on a 1000 by 1000 image shown at half size.
\<close>

theorem roundtrip_drawn_witness:
  "1 \<le> scale zoomed2 \<and> displayScale view0 \<noteq> 0
   \<and> imageToClient view0 zoomed2 (25, 40) = (55, 70)
   \<and> mouseToImageCoords (Some view0) zoomed2 55 70 = Some (25, 40)"
proof -
  have h: "1 \<le> scale zoomed2" "displayScale view0 \<noteq> 0"
    by (simp_all add: zoomed2_def initial_def view0_ds)
  have e: "imageToClient view0 zoomed2 (25, 40) = (55, 70)"
    by (simp add: imageToClient_def view0_ds view0_margin zoomed2_def initial_def)
       (simp add: view0_def)
  show ?thesis
    using roundtrip_drawn [OF h, of "(25, 40)"] h e by simp
qed

text \<open>
  Claim C7 as stated fails: with the composite \<open>((p + margin) * scale + translate) *
  displayFitScale\<close> of the specification, at the valid scale 2 the image point
  \<open>(0, 0)\<close> goes to the client point \<open>(60, 60)\<close>, which the pointer-to-image mapping
  takes to \<open>(30, 30)\<close>.
\<close>

theorem roundtrip_spec_counterexample:
  "1 \<le> scale zoomed2 \<and> scale zoomed2 \<le> 10
   \<and> spec_imageToClient view0 zoomed2 (0, 0) = (60, 60)
   \<and> mouseToImageCoords (Some view0) zoomed2
         (fst (spec_imageToClient view0 zoomed2 (0, 0)))
         (snd (spec_imageToClient view0 zoomed2 (0, 0))) = Some (30, 30)
   \<and> mouseToImageCoords (Some view0) zoomed2
         (fst (spec_imageToClient view0 zoomed2 (0, 0)))
         (snd (spec_imageToClient view0 zoomed2 (0, 0))) \<noteq> Some (0, 0)"
  by (simp add: spec_imageToClient_def mouseToImageCoords_def view0_ds view0_margin
        zoomed2_def initial_def Let_def) (simp add: view0_def)

lemma focal_unclamped:
  assumes "scale s \<noteq> 0" "newScale \<noteq> 0" "displayScale v \<noteq> 0"
  shows "mouseToImageCoords (Some v)
           (s\<lparr>translateX := fst (focalTranslate v s c newScale),
              translateY := snd (focalTranslate v s c newScale), scale := newScale\<rparr>)
           (fst c) (snd c)
         = mouseToImageCoords (Some v) s (fst c) (snd c)"
  using assms
  by (simp add: mouseToImageCoords_def focalTranslate_def Let_def field_simps)

lemma handleWheel_eq:
  "handleWheel (Some v) cx cy dY s =
     (setTranslate (constrainPan (Some v) (fst (focalTranslate v s (cx, cy) (wheelScale s dY)))
                      (snd (focalTranslate v s (cx, cy) (wheelScale s dY))) (wheelScale s dY)) s)
       \<lparr>scale := wheelScale s dY\<rparr>"
  by (simp add: handleWheel_def focalTranslate_def wheelScale_def Let_def)

lemma pinch_eq:
  "0 < touchStartDistance s \<Longrightarrow> pinch v ts s =
     (setTranslate (constrainPan (Some v)
                      (fst (focalTranslate v s (getTouchCenter ts) (pinchScale s ts)))
                      (snd (focalTranslate v s (getTouchCenter ts) (pinchScale s ts)))
                      (pinchScale s ts)) s)
       \<lparr>scale := pinchScale s ts\<rparr>"
  by (simp add: pinch_def focalTranslate_def pinchScale_def Let_def)

lemma wheelScale_pos: "1 \<le> wheelScale s dY"
  by (simp add: wheelScale_def)

lemma pinchScale_pos: "1 \<le> pinchScale s ts"
  by (simp add: pinchScale_def)

lemma translate_setTranslate:
  "translateX ((setTranslate c s)\<lparr>scale := k\<rparr>) = fst c"
  "translateY ((setTranslate c s)\<lparr>scale := k\<rparr>) = snd c"
  "scale ((setTranslate c s)\<lparr>scale := k\<rparr>) = k"
  by (simp_all add: setTranslate_def)

lemma focal_kept:
  assumes "scale s \<noteq> 0" "k \<noteq> 0" "displayScale v \<noteq> 0"
    and "constrainPan (Some v) (fst (focalTranslate v s c k)) (snd (focalTranslate v s c k)) k
         = focalTranslate v s c k"
  shows "mouseToImageCoords (Some v)
           ((setTranslate (constrainPan (Some v) (fst (focalTranslate v s c k))
                             (snd (focalTranslate v s c k)) k) s)\<lparr>scale := k\<rparr>)
           (fst c) (snd c)
         = mouseToImageCoords (Some v) s (fst c) (snd c)"
proof -
  have "(setTranslate (focalTranslate v s c k) s)\<lparr>scale := k\<rparr>
        = s\<lparr>translateX := fst (focalTranslate v s c k),
             translateY := snd (focalTranslate v s c k), scale := k\<rparr>"
    by (simp add: setTranslate_def)
  then show ?thesis
    using focal_unclamped [OF assms(1-3), of c] assms(4) by simp
qed

text \<open>
  Claim C2, as amended. A wheel event sets the scale to
  \<open>clamp(scale * (1.1 if deltaY < 0 else 0.9), 1, 10)\<close> and the translate to the
  boundary solver's answer for \<open>pointer - (pointer - translate) * (scale' / scale)\<close>;
  a two-finger move over a positive pinch baseline does the same with the midpoint of the
  touches and \<open>clamp(touchStartScale * distance / touchStartDistance, 1, 10)\<close>. The image
  point under the pointer is the same before and after whenever the boundary solver leaves
  the focal translate as it is; when the solver moves it, the point under the pointer
  moves too.
\<close>

theorem focal_zoom:
  assumes "1 \<le> scale s" "displayScale v \<noteq> 0"
  shows
    "scale (handleWheel (Some v) cx cy dY s) = wheelScale s dY
     \<and> (translateX (handleWheel (Some v) cx cy dY s), translateY (handleWheel (Some v) cx cy dY s))
         = constrainPan (Some v) (fst (focalTranslate v s (cx, cy) (wheelScale s dY)))
             (snd (focalTranslate v s (cx, cy) (wheelScale s dY))) (wheelScale s dY)
     \<and> (constrainPan (Some v) (fst (focalTranslate v s (cx, cy) (wheelScale s dY)))
             (snd (focalTranslate v s (cx, cy) (wheelScale s dY))) (wheelScale s dY)
           = focalTranslate v s (cx, cy) (wheelScale s dY)
         \<longrightarrow> mouseToImageCoords (Some v) (handleWheel (Some v) cx cy dY s) cx cy
             = mouseToImageCoords (Some v) s cx cy)
     \<and> (length ts = 2 \<and> 0 < touchStartDistance s \<longrightarrow>
          scale (handleTouchMove (Some v) p ts s) = pinchScale s ts
          \<and> (translateX (handleTouchMove (Some v) p ts s),
              translateY (handleTouchMove (Some v) p ts s))
              = constrainPan (Some v) (fst (focalTranslate v s (getTouchCenter ts) (pinchScale s ts)))
                  (snd (focalTranslate v s (getTouchCenter ts) (pinchScale s ts))) (pinchScale s ts)
          \<and> (constrainPan (Some v) (fst (focalTranslate v s (getTouchCenter ts) (pinchScale s ts)))
                  (snd (focalTranslate v s (getTouchCenter ts) (pinchScale s ts))) (pinchScale s ts)
                = focalTranslate v s (getTouchCenter ts) (pinchScale s ts)
              \<longrightarrow> mouseToImageCoords (Some v) (handleTouchMove (Some v) p ts s)
                    (fst (getTouchCenter ts)) (snd (getTouchCenter ts))
                  = mouseToImageCoords (Some v) s
                      (fst (getTouchCenter ts)) (snd (getTouchCenter ts))))"
proof -
  have s0: "scale s \<noteq> 0" using assms(1) by simp
  have w0: "wheelScale s dY \<noteq> 0" using wheelScale_pos [of s dY] by simp
  have p0: "pinchScale s ts \<noteq> 0" using pinchScale_pos [of s ts] by simp
  have wheel1: "scale (handleWheel (Some v) cx cy dY s) = wheelScale s dY"
    by (simp add: handleWheel_eq translate_setTranslate)
  have wheel2: "(translateX (handleWheel (Some v) cx cy dY s),
                 translateY (handleWheel (Some v) cx cy dY s))
         = constrainPan (Some v) (fst (focalTranslate v s (cx, cy) (wheelScale s dY)))
             (snd (focalTranslate v s (cx, cy) (wheelScale s dY))) (wheelScale s dY)"
    by (simp add: handleWheel_eq translate_setTranslate)
  have wheel3: "mouseToImageCoords (Some v) (handleWheel (Some v) cx cy dY s) cx cy
             = mouseToImageCoords (Some v) s cx cy"
    if "constrainPan (Some v) (fst (focalTranslate v s (cx, cy) (wheelScale s dY)))
             (snd (focalTranslate v s (cx, cy) (wheelScale s dY))) (wheelScale s dY)
           = focalTranslate v s (cx, cy) (wheelScale s dY)"
    using focal_kept [OF s0 w0 assms(2) that] by (simp add: handleWheel_eq)
  have touch: "handleTouchMove (Some v) p ts s =
     (setTranslate (constrainPan (Some v)
                      (fst (focalTranslate v s (getTouchCenter ts) (pinchScale s ts)))
                      (snd (focalTranslate v s (getTouchCenter ts) (pinchScale s ts)))
                      (pinchScale s ts)) s)
       \<lparr>scale := pinchScale s ts\<rparr>"
    if "length ts = 2" "0 < touchStartDistance s"
    using that by (simp add: handleTouchMove_def pinch_eq)
  have pinch3: "mouseToImageCoords (Some v) (handleTouchMove (Some v) p ts s)
                    (fst (getTouchCenter ts)) (snd (getTouchCenter ts))
                  = mouseToImageCoords (Some v) s
                      (fst (getTouchCenter ts)) (snd (getTouchCenter ts))"
    if "length ts = 2" "0 < touchStartDistance s"
       "constrainPan (Some v) (fst (focalTranslate v s (getTouchCenter ts) (pinchScale s ts)))
                  (snd (focalTranslate v s (getTouchCenter ts) (pinchScale s ts))) (pinchScale s ts)
                = focalTranslate v s (getTouchCenter ts) (pinchScale s ts)"
    using focal_kept [OF s0 p0 assms(2) that(3)] touch [OF that(1,2)] by simp
  show ?thesis
    using wheel1 wheel2 wheel3 pinch3
    by (auto simp: touch translate_setTranslate)
qed

lemma spread_distance: "getTouchDistance spread = 110"
proof -
  have "sqrt ((110::real) ^ 2) = 110" by (simp del: power2_eq_square)
  then show ?thesis by (simp add: getTouchDistance_def spread_def)
qed

lemma spread_center: "getTouchCenter spread = (280, 280)"
  by (simp add: getTouchCenter_def spread_def)

lemma deep_wheelScale: "wheelScale deep (- 1) = 22 / 5"
  by (simp add: wheelScale_def deep_def initial_def)

lemma deep_pinchScale: "pinchScale deep spread = 22 / 5"
  by (simp add: pinchScale_def spread_distance) (simp add: deep_def initial_def)

lemma deep_focal: "focalTranslate view0 deep (280, 280) (22 / 5) = (- 1150, - 1150)"
  by (simp add: focalTranslate_def view0_ds view0_margin Let_def)
     (simp add: view0_def deep_def initial_def)

lemma deep_constrain: "constrainPan (Some view0) (- 1150) (- 1150) (22 / 5) = (- 1150, - 1150)"
  by (simp add: constrainPan_def view0_ds view0_margin Let_def) (simp add: view0_def)

lemma deep_before: "mouseToImageCoords (Some view0) deep 280 280 = Some (375, 375)"
  by (simp add: mouseToImageCoords_def view0_ds view0_margin Let_def)
     (simp add: view0_def deep_def initial_def)

text \<open>
  A wheel step and a pinch from scale 4 to 4.4 deep inside the image: the solver keeps the
  focal translate and the image point \<open>(375, 375)\<close> stays under the pointer.
\<close>

theorem focal_zoom_witness:
  "1 \<le> scale deep \<and> displayScale view0 \<noteq> 0
   \<and> length spread = 2 \<and> 0 < touchStartDistance deep
   \<and> constrainPan (Some view0) (- 1150) (- 1150) (22 / 5)
       = focalTranslate view0 deep (280, 280) (22 / 5)
   \<and> scale (handleWheel (Some view0) 280 280 (- 1) deep) = 22 / 5
   \<and> mouseToImageCoords (Some view0) (handleWheel (Some view0) 280 280 (- 1) deep) 280 280
       = Some (375, 375)
   \<and> scale (handleTouchMove (Some view0) plain spread deep) = 22 / 5
   \<and> mouseToImageCoords (Some view0) (handleTouchMove (Some view0) plain spread deep) 280 280
       = Some (375, 375)"
proof -
  have h: "1 \<le> scale deep" "displayScale view0 \<noteq> 0"
    by (simp_all add: deep_def initial_def view0_ds)
  have t: "length spread = 2" "0 < touchStartDistance deep"
    by (simp_all add: spread_def deep_def initial_def)
  show ?thesis
    using focal_zoom [OF h, of 280 280 "- 1" spread plain] h t
    by (simp add: deep_wheelScale deep_pinchScale spread_center deep_focal deep_constrain
          deep_before)
qed

text \<open>
  Claim C2 as stated fails: from the initial state, one wheel step at the client point
  \<open>(100, 100)\<close> gives scale 1.1, at which the image is narrower than the container, so
  the solver centres it; the image point under the pointer moves from \<open>(140, 140)\<close> to
  \<open>(1900/11, 1900/11)\<close>, more than 32 image pixels away.
\<close>

theorem focal_zoom_counterexample:
  "mouseToImageCoords (Some view0) initial 100 100 = Some (140, 140)
   \<and> scale (handleWheel (Some view0) 100 100 (- 1) initial) = 11 / 10
   \<and> mouseToImageCoords (Some view0) (handleWheel (Some view0) 100 100 (- 1) initial) 100 100
       = Some (1900 / 11, 1900 / 11)"
  by (simp add: mouseToImageCoords_def handleWheel_def constrainPan_def setTranslate_def
        view0_ds view0_margin Let_def initial_def)
     (simp add: view0_def)

subsection \<open>Region drawing\<close>

text \<open>
  With both corners inside the image the code's rectangle is the normalised one, which
  needs no clipping; the reverse drag of the specification gives
  \<open>{x: 40, y: 30, width: 10, height: 20}\<close>.
\<close>

lemma regionBounds_inside:
  assumes "0 \<le> fst a" "fst a \<le> real (naturalWidth v)" "0 \<le> fst c" "fst c \<le> real (naturalWidth v)"
    and "0 \<le> snd a" "snd a \<le> real (naturalHeight v)" "0 \<le> snd c" "snd c \<le> real (naturalHeight v)"
  shows "regionBounds v a c = spec_region v a c"
    and "regionBounds v a c =
           \<lparr>reg_x = min (fst a) (fst c), reg_y = min (snd a) (snd c),
            reg_width = \<bar>fst c - fst a\<bar>, reg_height = \<bar>snd c - snd a\<bar>\<rparr>"
  using assms by (auto simp: regionBounds_def spec_region_def Let_def min_def max_def)

lemma regionBounds_reverse:
  "regionBounds view0 (50, 50) (40, 30)
   = \<lparr>reg_x = 40, reg_y = 30, reg_width = 10, reg_height = 20\<rparr>"
  by (simp add: regionBounds_def Let_def view0_def)

lemma view0_coords:
  "mouseToImageCoords (Some view0) (s\<lparr>scale := 1, translateX := 0, translateY := 0\<rparr>) x y
   = Some (2 * x - 60, 2 * y - 60)"
  by (simp add: mouseToImageCoords_def view0_ds view0_margin Let_def) (simp add: view0_def)

text \<open>
  Claim C5: the rectangle under construction is \<open>{x: min(anchor.x, cur.x), y: min(anchor.y,
  cur.y), width: |cur.x - anchor.x|, height: |cur.y - anchor.y|}\<close> clipped to the image.
  The code clamps \<open>x\<close> from below and the width from above, which is the clipped rectangle
  only while the smaller corner lies inside the image. On a 1000 by 1000 image shown at half
  size, a press on the left ruler band at client \<open>(20, 35)\<close>, image point \<open>(-20, 10)\<close>,
  dragged to client \<open>(45, 50)\<close>, image point \<open>(30, 40)\<close>, gives \<open>x = 0\<close> with the full
  width 50, so the rectangle ends at 50 where the pointer is at 30; the clipped rectangle
  has width 30. A drag from \<open>(1010, 10)\<close> to \<open>(1020, 40)\<close>, right of the image, gives
  \<open>x = 1010\<close> and the width \<open>-10\<close>.
\<close>

theorem regionBounds_outside:
  "currentRegion
     (handleMouseMove (Some view0) regionMode 45 50
        (handleMouseDown (Some view0) regionMode 20 35 initial))
   = Some (regionBounds view0 (- 20, 10) (30, 40))
   \<and> regionBounds view0 (- 20, 10) (30, 40)
       = \<lparr>reg_x = 0, reg_y = 10, reg_width = 50, reg_height = 30\<rparr>
   \<and> spec_region view0 (- 20, 10) (30, 40)
       = \<lparr>reg_x = 0, reg_y = 10, reg_width = 30, reg_height = 30\<rparr>
   \<and> regionBounds view0 (1010, 10) (1020, 40)
       = \<lparr>reg_x = 1010, reg_y = 10, reg_width = - 10, reg_height = 30\<rparr>
   \<and> spec_region view0 (1010, 10) (1020, 40)
       = \<lparr>reg_x = 1000, reg_y = 10, reg_width = 0, reg_height = 30\<rparr>"
proof -
  have i: "initial = initial\<lparr>scale := 1, translateX := 0, translateY := 0\<rparr>"
    by (simp add: initial_def)
  have d: "handleMouseDown (Some view0) regionMode 20 35 initial
           = initial\<lparr>isDrawingRegion := True, regionStart := Some (- 20, 10),
                      fired := [OnRegionSelect None]\<rparr>"
    by (subst i) (simp add: handleMouseDown_def beginRegion_def view0_coords onRegionSelect_def
          regionMode_def, simp add: initial_def)
  have c: "mouseToImageCoords (Some view0)
             (initial\<lparr>isDrawingRegion := True, regionStart := Some (- 20, 10),
                      fired := [OnRegionSelect None]\<rparr>) 45 50 = Some (30, 40)"
    using view0_coords [of "initial\<lparr>isDrawingRegion := True, regionStart := Some (- 20, 10),
                      fired := [OnRegionSelect None]\<rparr>" 45 50]
    by (simp add: initial_def)
  have m: "currentRegion
     (handleMouseMove (Some view0) regionMode 45 50
        (handleMouseDown (Some view0) regionMode 20 35 initial))
   = Some (regionBounds view0 (- 20, 10) (30, 40))"
    unfolding d by (simp add: handleMouseMove_def drawRegion_def c regionMode_def)
  show ?thesis
    unfolding m by (simp add: regionBounds_def spec_region_def Let_def view0_def)
qed

lemma regionSelection_snoc:
  "regionSelection (cs @ [OnRegionSelect r]) = r"
  by (simp add: regionSelection_def)

lemma finishRegion_fired:
  "has_onRegionSelect p \<Longrightarrow>
     fired (finishRegion p r s)
     = fired s @ (if acceptable r then [OnRegionSelect (Some r)] else [])"
  by (simp add: finishRegion_def onRegionSelect_def acceptable_def)

lemma finishRegion_current:
  "currentRegion s = Some r \<Longrightarrow>
     currentRegion (finishRegion p r s) = (if acceptable r then Some r else None)"
  by (simp add: finishRegion_def onRegionSelect_def acceptable_def)

lemma finishRegion_idle:
  "\<not> isDrawingRegion (finishRegion p r s) \<and> regionStart (finishRegion p r s) = None"
  by (simp add: finishRegion_def onRegionSelect_def)

lemma handleMouseUp_finish:
  "isDrawingRegion s \<Longrightarrow> currentRegion s = Some r \<Longrightarrow> isRegionSelectMode p \<Longrightarrow>
     handleMouseUp p s = finishRegion p r s"
  by (simp add: handleMouseUp_def)

lemma handleTouchEnd_finish:
  "isDrawingRegion s \<Longrightarrow> currentRegion s = Some r \<Longrightarrow> isRegionSelectMode p \<Longrightarrow>
     handleTouchEnd p [] s
     = (finishRegion p r s)\<lparr>isPanning := False, touchStartDistance := 0, touchStartScale := 1\<rparr>"
  by (simp add: handleTouchEnd_def)

lemma coords_total:
  "\<exists>c. mouseToImageCoords (Some v) s x y = Some c"
  by (simp add: mouseToImageCoords_def Let_def)

lemma coords_cong:
  "scale s' = scale s \<Longrightarrow> translateX s' = translateX s \<Longrightarrow> translateY s' = translateY s \<Longrightarrow>
     mouseToImageCoords vo s' x y = mouseToImageCoords vo s x y"
  by (cases vo) (simp_all add: mouseToImageCoords_def Let_def)

lemma region_gesture:
  assumes "isRegionSelectMode p" "has_onRegionSelect p"
    and "mouseToImageCoords (Some v) s x0 y0 = Some c0"
    and "mouseToImageCoords (Some v) s x1 y1 = Some c1"
  shows "regionSelection
           (fired (handleMouseUp p
              (handleMouseMove (Some v) p x1 y1 (handleMouseDown (Some v) p x0 y0 s))))
         = (if acceptable (regionBounds v c0 c1) then Some (regionBounds v c0 c1) else None)"
proof -
  let ?s1 = "handleMouseDown (Some v) p x0 y0 s"
  have s1: "?s1 = (s\<lparr>isDrawingRegion := True, regionStart := Some c0, currentRegion := None,
                       fired := fired s @ [OnRegionSelect None]\<rparr>)"
    using assms(1-3) by (simp add: handleMouseDown_def beginRegion_def onRegionSelect_def)
  have c: "mouseToImageCoords (Some v) ?s1 x1 y1 = Some c1"
    using assms(4) coords_cong [of ?s1 s "Some v" x1 y1] by (simp add: s1)
  let ?s2 = "handleMouseMove (Some v) p x1 y1 ?s1"
  have s2: "?s2 = ?s1\<lparr>currentRegion := Some (regionBounds v c0 c1)\<rparr>"
    using assms(1) c by (simp add: handleMouseMove_def drawRegion_def s1)
  have d: "isDrawingRegion ?s2" "currentRegion ?s2 = Some (regionBounds v c0 c1)"
    "fired ?s2 = fired s @ [OnRegionSelect None]"
    by (simp_all add: s2) (simp_all add: s1)
  have "fired (handleMouseUp p ?s2)
        = (fired s @ [OnRegionSelect None])
          @ (if acceptable (regionBounds v c0 c1)
             then [OnRegionSelect (Some (regionBounds v c0 c1))] else [])"
    using handleMouseUp_finish [OF d(1,2) assms(1)]
      finishRegion_fired [OF assms(2), of "regionBounds v c0 c1" ?s2] d(3) by simp
  then show ?thesis
    using regionSelection_snoc [of "fired s" None]
      regionSelection_snoc [of "fired s @ [OnRegionSelect None]" "Some (regionBounds v c0 c1)"]
    by (simp split: if_splits)
qed

text \<open>
  Claim C6. On release of a region draw (mouse up, or the last finger lifted), with the
  callback present: \<open>onRegionSelect\<close> is called with the rectangle exactly when its width
  and its height are both at least 10, and then it stays the current region; otherwise
  nothing is called and the current region is dropped. In both cases drawing ends. Over a
  whole gesture (press, move, release) in region mode the parent's selection ends as the
  drawn rectangle when it is at least 10 by 10 and as null otherwise, the press having
  cleared it.
\<close>

theorem region_release:
  assumes "isDrawingRegion s" "currentRegion s = Some r"
    and "isRegionSelectMode p" "has_onRegionSelect p"
  shows "fired (handleMouseUp p s)
           = fired s @ (if 10 \<le> reg_width r \<and> 10 \<le> reg_height r
                        then [OnRegionSelect (Some r)] else [])
     \<and> currentRegion (handleMouseUp p s)
           = (if 10 \<le> reg_width r \<and> 10 \<le> reg_height r then Some r else None)
     \<and> regionSelection (fired (handleMouseUp p s))
           = (if 10 \<le> reg_width r \<and> 10 \<le> reg_height r then Some r
              else regionSelection (fired s))
     \<and> \<not> isDrawingRegion (handleMouseUp p s)
     \<and> fired (handleTouchEnd p [] s)
           = fired s @ (if 10 \<le> reg_width r \<and> 10 \<le> reg_height r
                        then [OnRegionSelect (Some r)] else [])
     \<and> currentRegion (handleTouchEnd p [] s)
           = (if 10 \<le> reg_width r \<and> 10 \<le> reg_height r then Some r else None)
     \<and> regionSelection (fired (handleTouchEnd p [] s))
           = (if 10 \<le> reg_width r \<and> 10 \<le> reg_height r then Some r
              else regionSelection (fired s))
     \<and> \<not> isDrawingRegion (handleTouchEnd p [] s)
     \<and> (\<exists>c0 c1.
           mouseToImageCoords (Some v) s0 x0 y0 = Some c0
           \<and> mouseToImageCoords (Some v) s0 x1 y1 = Some c1
           \<and> regionSelection
                 (fired (handleMouseUp p
                    (handleMouseMove (Some v) p x1 y1 (handleMouseDown (Some v) p x0 y0 s0))))
               = (if 10 \<le> reg_width (regionBounds v c0 c1)
                     \<and> 10 \<le> reg_height (regionBounds v c0 c1)
                  then Some (regionBounds v c0 c1) else None))"
proof -
  obtain c0 c1 where c: "mouseToImageCoords (Some v) s0 x0 y0 = Some c0"
      "mouseToImageCoords (Some v) s0 x1 y1 = Some c1"
    using coords_total by blast
  have g: "\<exists>c0 c1.
           mouseToImageCoords (Some v) s0 x0 y0 = Some c0
           \<and> mouseToImageCoords (Some v) s0 x1 y1 = Some c1
           \<and> regionSelection
                 (fired (handleMouseUp p
                    (handleMouseMove (Some v) p x1 y1 (handleMouseDown (Some v) p x0 y0 s0))))
               = (if 10 \<le> reg_width (regionBounds v c0 c1)
                     \<and> 10 \<le> reg_height (regionBounds v c0 c1)
                  then Some (regionBounds v c0 c1) else None)"
    using region_gesture [OF assms(3,4) c] c unfolding acceptable_def by blast
  show ?thesis
    unfolding handleMouseUp_finish [OF assms(1-3)] handleTouchEnd_finish [OF assms(1-3)]
    using finishRegion_fired [OF assms(4), of r s] finishRegion_current [OF assms(2), of p]
      finishRegion_idle [of p r s] g
    by (simp add: acceptable_def regionSelection_snoc)
qed

text \<open>
  A 15 by 15 rectangle is committed on mouse up; a 15 by 9 one is discarded on touch end.
\<close>

theorem region_release_witness:
  "isDrawingRegion (drawing picked) \<and> currentRegion (drawing picked) = Some picked
   \<and> isDrawingRegion (drawing sliver) \<and> currentRegion (drawing sliver) = Some sliver
   \<and> isRegionSelectMode regionMode \<and> has_onRegionSelect regionMode
   \<and> fired (handleMouseUp regionMode (drawing picked))
       = [OnRegionSelect None, OnRegionSelect (Some picked)]
   \<and> regionSelection (fired (handleMouseUp regionMode (drawing picked))) = Some picked
   \<and> fired (handleTouchEnd regionMode [] (drawing sliver)) = [OnRegionSelect None]
   \<and> currentRegion (handleTouchEnd regionMode [] (drawing sliver)) = None
   \<and> regionSelection (fired (handleTouchEnd regionMode [] (drawing sliver))) = None"
proof -
  have a: "isDrawingRegion (drawing picked)" "currentRegion (drawing picked) = Some picked"
    and b: "isDrawingRegion (drawing sliver)" "currentRegion (drawing sliver) = Some sliver"
    and m: "isRegionSelectMode regionMode" "has_onRegionSelect regionMode"
    by (simp_all add: drawing_def regionMode_def)
  have f: "fired (drawing picked) = [OnRegionSelect None]"
    "fired (drawing sliver) = [OnRegionSelect None]"
    by (simp_all add: drawing_def)
  have w: "reg_width picked = 15" "reg_height picked = 15"
    "reg_width sliver = 15" "reg_height sliver = 9"
    by (simp_all add: picked_def sliver_def)
  show ?thesis
    using region_release [OF a m] region_release [OF b m] a b m
    by (simp add: f w regionSelection_def)
qed

subsection \<open>Selection blink\<close>

lemma totalDuration_eq: "totalDuration = 4000"
  by (simp add: totalDuration_def blinkDuration_def totalBlinks_def)

lemma cleanup_tracked: "tracked b \<Longrightarrow> pending (cleanup b) = []"
  by (auto simp: tracked_def cleanup_def cancelAnimationFrame_def)

lemma cleanup_fields:
  "blinkOpacity (cleanup b) = blinkOpacity b" "selectedObjectId (cleanup b) = selectedObjectId b"
  "has_onObjectSelect (cleanup b) = has_onObjectSelect b" "selectCalls (cleanup b) = selectCalls b"
  by (simp_all add: cleanup_def cancelAnimationFrame_def)

lemma select_blinking:
  assumes "tracked b" "truthy (Some obj)"
  shows "blinking t0 (select (Some obj) t0 b)"
    and "selectedObjectId (select (Some obj) t0 b) = Some obj"
    and "has_onObjectSelect (select (Some obj) t0 b) = has_onObjectSelect b"
    and "selectCalls (select (Some obj) t0 b) = selectCalls b"
  using assms cleanup_tracked [OF assms(1)]
  by (simp_all add: select_def blinkEffect_def requestAnimationFrame_def blinking_def Let_def
        cleanup_fields)

lemma frame_idle: "pending b = [] \<Longrightarrow> frame t b = b"
  by (simp add: frame_def)

lemma frames_idle: "pending b = [] \<Longrightarrow> frames ts b = b"
  by (induction ts) (simp_all add: frames_def frame_idle)

lemma frame_blinking: "blinking t0 b \<Longrightarrow> frame t b = animate t (b\<lparr>pending := []\<rparr>)"
  by (simp add: blinking_def frame_def)

lemma frame_early:
  assumes "blinking t0 b" "t - t0 < totalDuration"
  shows "blinking t0 (frame t b)"
    and "blinkOpacity (frame t b)
         = 35 / 100 + sin (real_of_int (t - t0) / real_of_int blinkDuration) * (15 / 100)"
    and "selectedObjectId (frame t b) = selectedObjectId b"
    and "has_onObjectSelect (frame t b) = has_onObjectSelect b"
    and "selectCalls (frame t b) = selectCalls b"
  using assms
  by (simp_all add: frame_blinking [OF assms(1)] animate_def requestAnimationFrame_def
        blinking_def Let_def)

lemma frame_late:
  assumes "blinking t0 b" "totalDuration \<le> t - t0" "has_onObjectSelect b"
  shows "pending (frame t b) = []"
    and "blinkOpacity (frame t b) = 4 / 10"
    and "selectedObjectId (frame t b) = None"
    and "selectCalls (frame t b) = selectCalls b @ [OnObjectSelect None]"
  using assms
  by (simp_all add: frame_blinking [OF assms(1)] animate_def blinking_def Let_def)

lemma frames_snoc: "frames (ts @ [t]) b = frame t (frames ts b)"
  by (simp add: frames_def)

lemma frames_early:
  assumes "blinking t0 b" "\<forall>u\<in>set ts. u - t0 < totalDuration"
  shows "blinking t0 (frames ts b) \<and> selectedObjectId (frames ts b) = selectedObjectId b
         \<and> has_onObjectSelect (frames ts b) = has_onObjectSelect b
         \<and> selectCalls (frames ts b) = selectCalls b"
  using assms(2)
proof (induction ts rule: rev_induct)
  case Nil
  then show ?case using assms(1) by (simp add: frames_def)
next
  case (snoc t ts)
  then have b: "blinking t0 (frames ts b)" and t: "t - t0 < totalDuration" by simp_all
  show ?case
    using frame_early [OF b t] snoc by (simp add: frames_snoc)
qed

lemma blinking_cleanup: "blinking t0 b \<Longrightarrow> pending (cleanup b) = []"
  by (simp add: blinking_def cleanup_def cancelAnimationFrame_def)

text \<open>
  Claim C8. An object is selected at time \<open>t0\<close>, with the callback present, when no frame
  request of an earlier run is left over. The total duration is 10 cycles of 400 ms. After
  any frames before the deadline, a frame at time \<open>t\<close> with \<open>t - t0\<close> below the total
  duration sets the opacity to \<open>0.35 + 0.15 * sin((t - t0) / 400)\<close>, keeps the selection
  and requests the next frame; the first frame with \<open>t - t0\<close> at or past the total
  duration requests nothing, resets the opacity to 0.4 and calls
  \<open>onObjectSelect(null)\<close>, after which the selection is null and further frames of the
  browser change nothing. Cleaning the effect up at any point before that (a new selection
  or unmount) leaves no frame request behind, and further frames change nothing.
\<close>

theorem blink_terminates:
  assumes "tracked b" "truthy (Some obj)" "has_onObjectSelect b"
    and "\<forall>u\<in>set ts. u - t0 < totalDuration"
  shows "totalDuration = 10 * 400
     \<and> (t - t0 < totalDuration \<longrightarrow>
          blinkOpacity (frames (ts @ [t]) (select (Some obj) t0 b))
            = 35 / 100 + sin (real_of_int (t - t0) / 400) * (15 / 100)
          \<and> pending (frames (ts @ [t]) (select (Some obj) t0 b)) \<noteq> []
          \<and> selectedObjectId (frames (ts @ [t]) (select (Some obj) t0 b)) = Some obj)
     \<and> (totalDuration \<le> t - t0 \<longrightarrow>
          pending (frames (ts @ [t]) (select (Some obj) t0 b)) = []
          \<and> blinkOpacity (frames (ts @ [t]) (select (Some obj) t0 b)) = 4 / 10
          \<and> selectedObjectId (frames (ts @ [t]) (select (Some obj) t0 b)) = None
          \<and> selectCalls (frames (ts @ [t]) (select (Some obj) t0 b))
              = selectCalls b @ [OnObjectSelect None]
          \<and> frames us (frames (ts @ [t]) (select (Some obj) t0 b))
              = frames (ts @ [t]) (select (Some obj) t0 b))
     \<and> pending (cleanup (frames ts (select (Some obj) t0 b))) = []
     \<and> frames us (cleanup (frames ts (select (Some obj) t0 b)))
         = cleanup (frames ts (select (Some obj) t0 b))"
proof -
  let ?b0 = "select (Some obj) t0 b"
  let ?b1 = "frames ts ?b0"
  note s = select_blinking [OF assms(1,2), of t0]
  have r: "blinking t0 ?b1" "selectedObjectId ?b1 = Some obj" "has_onObjectSelect ?b1"
    "selectCalls ?b1 = selectCalls b"
    using frames_early [OF s(1) assms(4)] s(2-4) assms(3) by simp_all
  have early: "blinkOpacity (frame t ?b1)
            = 35 / 100 + sin (real_of_int (t - t0) / 400) * (15 / 100)
          \<and> pending (frame t ?b1) \<noteq> [] \<and> selectedObjectId (frame t ?b1) = Some obj"
    if "t - t0 < totalDuration"
    using frame_early [OF r(1) that] r(2) by (simp add: blinking_def blinkDuration_def)
  have late: "pending (frame t ?b1) = [] \<and> blinkOpacity (frame t ?b1) = 4 / 10
          \<and> selectedObjectId (frame t ?b1) = None
          \<and> selectCalls (frame t ?b1) = selectCalls b @ [OnObjectSelect None]
          \<and> frames us (frame t ?b1) = frame t ?b1"
    if "totalDuration \<le> t - t0"
    using frame_late [OF r(1) that r(3)] r(4) by (simp add: frames_idle)
  have c: "pending (cleanup ?b1) = []"
    using blinking_cleanup [OF r(1)] .
  show ?thesis
    using early late c frames_idle [OF c, of us]
    by (simp add: frames_snoc totalDuration_eq)
qed

text \<open>
  Selection at 1000 ms: the frame at 1400 ms sets the opacity \<open>0.35 + 0.15 * sin 1\<close>; after
  frames at 1016, 1033 and 4999 ms the frame at 5000 ms ends the animation.
\<close>

theorem blink_terminates_witness:
  "tracked resting \<and> truthy (Some ''obj_1'') \<and> has_onObjectSelect resting
   \<and> list_all (\<lambda>u. u - 1000 < totalDuration) [1016, 1033, 4999]
   \<and> (1400::int) - 1000 < totalDuration
   \<and> blinkOpacity (frames ([1016, 1033] @ [1400]) (select (Some ''obj_1'') 1000 resting))
       = 35 / 100 + sin 1 * (15 / 100)
   \<and> pending (frames ([1016, 1033] @ [1400]) (select (Some ''obj_1'') 1000 resting)) \<noteq> []
   \<and> totalDuration \<le> 5000 - 1000
   \<and> pending (frames ([1016, 1033, 4999] @ [5000]) (select (Some ''obj_1'') 1000 resting)) = []
   \<and> blinkOpacity (frames ([1016, 1033, 4999] @ [5000]) (select (Some ''obj_1'') 1000 resting))
       = 4 / 10
   \<and> selectedObjectId (frames ([1016, 1033, 4999] @ [5000]) (select (Some ''obj_1'') 1000 resting))
       = None
   \<and> selectCalls (frames ([1016, 1033, 4999] @ [5000]) (select (Some ''obj_1'') 1000 resting))
       = [OnObjectSelect None]
   \<and> pending (cleanup (frames [1016, 1033, 4999] (select (Some ''obj_1'') 1000 resting))) = []"
proof -
  have h: "tracked resting" "truthy (Some ''obj_1'')" "has_onObjectSelect resting"
    by (simp_all add: tracked_def resting_def truthy_def)
  have e: "\<forall>u\<in>set [1016, 1033, 4999]. u - 1000 < totalDuration"
    and e': "\<forall>u\<in>set [1016, 1033]. u - 1000 < totalDuration"
    by (simp_all add: totalDuration_eq)
  have l: "totalDuration \<le> 5000 - 1000" "(1400::int) - 1000 < totalDuration"
    by (simp_all add: totalDuration_eq)
  have c: "selectCalls resting = []"
    by (simp add: resting_def)
  show ?thesis
    using blink_terminates [OF h e, of 5000] blink_terminates [OF h e', of 1400] h l c
    by (simp add: totalDuration_eq)
qed

subsection \<open>Export\<close>

lemma export_reads:
  "handleDownloadWithOverlays vo p (s\<lparr>scale := k, translateX := a, translateY := b\<rparr>) m now
   = handleDownloadWithOverlays vo p s m now"
  by (cases vo) (simp_all add: handleDownloadWithOverlays_def)

lemma export_size:
  "imageLoaded s \<Longrightarrow>
     map_option (\<lambda>e. (export_width e, export_height e))
       (handleDownloadWithOverlays (Some v) p s m now)
     = Some (naturalWidth v, naturalHeight v)"
  by (simp add: handleDownloadWithOverlays_def)

text \<open>
  The export of the one-detection scenario, with a text metric of 8 pixels per character.
\<close>

lemma export_found:
  "handleDownloadWithOverlays (Some view1) found loaded flatText 0
   = Some \<lparr>export_width = 1000, export_height = 800,
           commands =
             [DrawImage 0 0, BeginPath, MoveTo 100 100, LineTo 300 100, LineTo 300 300,
              LineTo 100 300, ClosePath, StrokeStyle ''#60a5fa'', LineWidth 3, Stroke,
              FillStyle ''#3b82f6'', Font ''600 14px Inter, sans-serif'',
              FillRect 174 180 52 22, FillStyle ''#000000'', FillText ''obj_1'' 180 194],
           stamp = 0\<rparr>"
  by (simp add: handleDownloadWithOverlays_def exportBox_def getObjectColor_def pastelColors_def
        found_def quad_def loaded_def initial_def view1_def flatText_def Let_def)

text \<open>
  Claim C9. The export does not depend on the live transform: for the same image,
  detections, text metrics and clock, any two scale and translate values give the same
  export (the same surface size and the same drawing calls, or no export at all while
  nothing is loaded); and with the image loaded the surface has the image's native size.
\<close>

theorem export_independent:
  "handleDownloadWithOverlays vo p (s\<lparr>scale := k1, translateX := a1, translateY := b1\<rparr>) m now
   = handleDownloadWithOverlays vo p (s\<lparr>scale := k2, translateX := a2, translateY := b2\<rparr>) m now
   \<and> map_option (\<lambda>e. (export_width e, export_height e))
        (handleDownloadWithOverlays (Some v) p
           (s\<lparr>imageLoaded := True, scale := k1, translateX := a1, translateY := b1\<rparr>) m now)
      = Some (naturalWidth v, naturalHeight v)"
  by (simp add: export_reads export_size)

subsection \<open>Pinch guard\<close>

lemma getTouchDistance_few: "length ts < 2 \<Longrightarrow> getTouchDistance ts = 0"
  by (cases ts rule: list.exhaust [case_product list.exhaust])
     (auto simp: getTouchDistance_def split: list.splits)

lemma pinch_unset: "touchStartDistance s \<le> 0 \<Longrightarrow> pinch v ts s = s"
  by (simp add: pinch_def Let_def)

lemma pinch_set:
  "0 < touchStartDistance s \<Longrightarrow> scale (pinch v ts s) = pinchScale s ts"
  by (simp add: pinch_def pinchScale_def Let_def)

lemma handleTouchEnd_baseline:
  "length ts < 2 \<Longrightarrow> touchStartDistance (handleTouchEnd p ts s) = 0"
  by (cases ts) (auto simp: handleTouchEnd_def split: option.splits)

text \<open>
  Claim C10. \<open>getTouchDistance\<close> is 0 for fewer than two touches; the pinch baseline is 0
  initially and again after any touch end that leaves fewer than two touches; a two-finger
  move that finds a baseline that is not positive leaves the whole state, and so the
  transform, unchanged; and a two-finger move changes the scale only under a positive
  baseline, by the ratio \<open>distance / touchStartDistance\<close>, so that ratio is never taken
  over zero.
\<close>

theorem pinch_guard:
  "(length ts < 2 \<longrightarrow> getTouchDistance ts = 0)
   \<and> touchStartDistance initial = 0
   \<and> (length ts < 2 \<longrightarrow> touchStartDistance (handleTouchEnd p ts s) = 0)
   \<and> (length ts = 2 \<and> touchStartDistance s \<le> 0 \<longrightarrow> handleTouchMove vo p ts s = s)
   \<and> (length ts = 2 \<longrightarrow>
        handleTouchMove (Some v) p ts s = s \<and> touchStartDistance s \<le> 0
        \<or> 0 < touchStartDistance s
          \<and> scale (handleTouchMove (Some v) p ts s)
              = min (max 1 (touchStartScale s
                               * (getTouchDistance ts / touchStartDistance s))) 10)"
proof -
  have a: "handleTouchMove vo' p ts s = s" if "length ts = 2" "touchStartDistance s \<le> 0"
    for vo'
    using that pinch_unset by (cases vo') (simp_all add: handleTouchMove_def)
  have b: "scale (handleTouchMove (Some v) p ts s)
              = min (max 1 (touchStartScale s
                               * (getTouchDistance ts / touchStartDistance s))) 10"
    if "length ts = 2" "0 < touchStartDistance s"
    using that pinch_set [of s v ts] by (simp add: handleTouchMove_def pinchScale_def)
  have c: "handleTouchMove (Some v) p ts s = s \<and> touchStartDistance s \<le> 0
        \<or> 0 < touchStartDistance s
          \<and> scale (handleTouchMove (Some v) p ts s)
              = min (max 1 (touchStartScale s
                               * (getTouchDistance ts / touchStartDistance s))) 10"
    if "length ts = 2"
  proof (cases "0 < touchStartDistance s")
    case True
    then show ?thesis using b [OF that] by blast
  next
    case False
    then show ?thesis using a [OF that, of "Some v"] by simp
  qed
  have d: "touchStartDistance initial = 0"
    by (simp add: initial_def)
  show ?thesis
    using a [of vo] c d getTouchDistance_few [of ts] handleTouchEnd_baseline [of ts p s]
    by blast
qed

text \<open>
  A single touch has distance 0; a two-finger move in the initial state, or after a touch
  end has reset the baseline, changes nothing; over the baseline 100 a finger distance of
  110 takes scale 4 to 4.4.
\<close>

theorem pinch_guard_witness:
  "length [(120, 80) :: real \<times> real] < 2 \<and> getTouchDistance [(120, 80)] = 0
   \<and> touchStartDistance (handleTouchEnd plain [(120, 80)] deep) = 0
   \<and> length spread = 2 \<and> touchStartDistance initial \<le> 0
   \<and> handleTouchMove (Some view0) plain spread initial = initial
   \<and> handleTouchMove (Some view0) plain spread (handleTouchEnd plain [(120, 80)] deep)
       = handleTouchEnd plain [(120, 80)] deep
   \<and> 0 < touchStartDistance deep
   \<and> scale (handleTouchMove (Some view0) plain spread deep) = 22 / 5"
proof -
  have l: "length [(120, 80) :: real \<times> real] < 2" "length spread = 2"
    by (simp_all add: spread_def)
  have z: "touchStartDistance initial \<le> 0" "0 < touchStartDistance deep"
    "touchStartDistance deep = 100" "touchStartScale deep = 4"
    by (simp_all add: initial_def deep_def)
  show ?thesis
    using pinch_guard [of "[(120, 80)]" plain deep "Some view0" view0]
      pinch_guard [of spread plain initial "Some view0" view0]
      pinch_guard [of spread plain "handleTouchEnd plain [(120, 80)] deep" "Some view0" view0]
      pinch_guard [of spread plain deep "Some view0" view0]
      l z
    by (simp add: spread_distance)
qed

subsection \<open>Auto-zoom\<close>

lemma js_sub_Num [simp]: "js_sub (Num a) (Num b) = Num (a - b)"
  by (auto simp: js_sub_def js_add_def finite_result_def signed_zero_def)

lemma js_add_Num [simp]: "js_add (Num a) (Num b) = Num (a + b)"
  by (auto simp: js_add_def finite_result_def signed_zero_def)

lemma js_min_Num [simp]: "js_min (Num a) (Num b) = Num (min a b)"
  by (auto simp: js_min_def js_less_def min_def)

lemma js_max_Num [simp]: "js_max (Num a) (Num b) = Num (max a b)"
  by (auto simp: js_max_def js_less_def max_def)

lemma js_mul_Num: "js_mul (Num a) (Num b) = finite_result ((a < 0) \<noteq> (b < 0)) (a * b)"
  by (simp add: js_mul_def)

lemma js_mul_Num_pos [simp]: "0 < b \<Longrightarrow> js_mul (Num a) (Num b) = Num (a * b)"
  by (auto simp: js_mul_Num finite_result_def signed_zero_def)

lemma js_div_Num_pos [simp]: "0 < b \<Longrightarrow> js_div (Num a) (Num b) = Num (a / b)"
  by (auto simp: js_div_def finite_result_def signed_zero_def)

lemma js_div_pos_Num: "0 < a \<Longrightarrow> js_div (Num a) (Num b) = (if b = 0 then PosInf else Num (a / b))"
  by (auto simp: js_div_def finite_result_def signed_zero_def signed_inf_def)

lemma js_min_PosInf [simp]: "js_min PosInf (Num a) = Num a" "js_min (Num a) PosInf = Num a"
  "js_min PosInf PosInf = PosInf"
  by (auto simp: js_min_def js_less_def)

lemma js_max_NegInf [simp]: "js_max NegInf (Num a) = Num a"
  by (auto simp: js_max_def js_less_def)



lemma found_extent: "extent (boundingBoxes found) = (Num 100, Num 100, Num 300, Num 300)"
  by (simp add: extent_def found_def quad_def grow_def)


lemma view1_ids: "imageDisplayScale view1 = Num (28 / 25)"
  by (simp add: imageDisplayScale_def view1_def)



lemma js_NaN [simp]:
  "js_mul NaN x = NaN" "js_mul x NaN = NaN" "js_div NaN x = NaN" "js_div x NaN = NaN"
  "js_add NaN x = NaN" "js_add x NaN = NaN" "js_sub NaN x = NaN"
  "js_min NaN x = NaN" "js_min x NaN = NaN" "js_max NaN x = NaN" "js_max x NaN = NaN"
  by (simp_all add: js_mul_def js_div_def js_add_def js_sub_def js_min_def js_max_def)

lemma js_sub_NaN [simp]: "js_sub x NaN = NaN"
  by (simp add: js_sub_def js_add_def)

lemma js_div_zero_zero [simp]: "js_div (Num 0) (Num 0) = NaN"
  by (simp add: js_div_def)

lemma finite_result_plain [simp]: "finite_result False r = Num r"
  by (simp add: finite_result_def signed_zero_def)

lemma js_mul_zero [simp]: "js_mul (Num 0) (Num b) = finite_result (b < 0) 0"
  by (simp add: js_mul_Num)

lemma js_mul_NegInf [simp]: "0 < r \<Longrightarrow> js_mul NegInf (Num r) = NegInf"
  by (simp add: js_mul_def signed_inf_def)

lemma hidden_ids: "imageDisplayScale hidden = Num 0"
  by (simp add: imageDisplayScale_def hidden_def)

lemma hidden_padded:
  "paddedBox hidden (Num 100, Num 100, Num 300, Num 300) = (Num 0, Num 0, Num 540, Num 540)"
  by (simp add: paddedBox_def Let_def hidden_def)

lemma hidden_fitScale: "fitScale hidden (Num 0, Num 0, Num 540, Num 540) = NaN"
proof -
  have "js_mul (Num 540) (Num 0) = Num 0"
    by (simp add: js_mul_Num finite_result_def signed_zero_def)
  moreover have "js_mul (Num (rect_width hidden)) (Num targetFillRatio) = Num 0"
    "js_mul (Num (rect_height hidden)) (Num targetFillRatio) = Num 0"
    by (simp_all add: hidden_def targetFillRatio_def finite_result_def signed_zero_def)
  ultimately show ?thesis
    by (simp add: fitScale_def Let_def hidden_ids)
qed

text \<open>
  The three exceptional runs of the effect: no box on screen, a detection with a single
  vertex (padded size zero, both quotients \<open>Infinity\<close>, scale 6), and a detection without
  vertices (the bounds stay infinite, scale 1.2, translate \<open>NaN\<close>).
\<close>

lemma hidden_autoZoom: "autoZoom (Some hidden) found loaded = NonFinite NaN NaN NaN"
proof -
  have c: "imageLoaded loaded" "boundingBoxes found \<noteq> []" "\<not> truthy (maskUrl found)"
    by (simp_all add: loaded_def initial_def found_def truthy_def)
  show ?thesis
    by (simp add: autoZoom_def c found_extent hidden_padded hidden_fitScale Let_def store_def)
qed

lemmas js_ops = js_mul_def js_div_def js_add_def js_sub_def js_min_def js_max_def js_less_def
  finite_result_def signed_zero_def signed_inf_def

lemma dot_extent: "extent (boundingBoxes dot) = (Num 200, Num 200, Num 200, Num 200)"
  by (simp add: extent_def dot_def grow_def)

lemma dot_padded:
  "paddedBox view1 (Num 200, Num 200, Num 200, Num 200) = (Num 200, Num 200, Num 200, Num 200)"
  by (simp add: paddedBox_def Let_def view1_def)

lemma dot_fitScale: "fitScale view1 (Num 200, Num 200, Num 200, Num 200) = Num 6"
proof -
  have "js_div (js_mul (Num (rect_width view1)) (Num targetFillRatio)) (Num 0) = PosInf"
    "js_div (js_mul (Num (rect_height view1)) (Num targetFillRatio)) (Num 0) = PosInf"
    by (simp_all add: view1_def targetFillRatio_def js_div_pos_Num)
  then show ?thesis
    by (simp add: fitScale_def Let_def view1_ids)
qed

lemma dot_autoZoom:
  "autoZoom (Some view1) dot loaded
   = Finite (loaded\<lparr>scale := 6, translateX := - 700, translateY := - 5525 / 7\<rparr>)"
proof -
  have c: "imageLoaded loaded" "boundingBoxes dot \<noteq> []" "\<not> truthy (maskUrl dot)"
    by (simp_all add: loaded_def initial_def dot_def truthy_def)
  show ?thesis
    by (simp add: autoZoom_def c dot_extent dot_padded dot_fitScale view1_ids Let_def store_def)
       (simp add: view1_def)
qed

lemma hollow_extent: "extent (boundingBoxes hollow) = (PosInf, PosInf, NegInf, NegInf)"
  by (simp add: extent_def hollow_def)

lemma hollow_padded:
  "paddedBox view1 (PosInf, PosInf, NegInf, NegInf) = (PosInf, PosInf, NegInf, NegInf)"
proof -
  have a: "js_sub NegInf PosInf = NegInf" "js_max NegInf NegInf = NegInf"
    "js_sub PosInf NegInf = PosInf" "js_add NegInf NegInf = NegInf"
    by (simp_all add: js_ops)
  have b: "js_max (Num 0) PosInf = PosInf" "js_min (Num r) NegInf = NegInf" for r
    by (simp_all add: js_ops)
  show ?thesis
    by (simp add: paddedBox_def Let_def a b)
qed

lemma hollow_fitScale: "fitScale view1 (PosInf, PosInf, NegInf, NegInf) = Num (6 / 5)"
proof -
  have a: "js_sub NegInf PosInf = NegInf"
    by (simp_all add: js_ops)
  have b: "js_div (js_mul (Num (rect_width view1)) (Num targetFillRatio)) NegInf = NegZero"
    "js_div (js_mul (Num (rect_height view1)) (Num targetFillRatio)) NegInf = NegZero"
    by (simp_all add: view1_def targetFillRatio_def) (simp_all add: js_ops)
  have c: "js_min NegZero NegZero = NegZero" "js_min NegZero (Num 6) = NegZero"
    "js_max (Num (6 / 5)) NegZero = Num (6 / 5)"
    by (simp_all add: js_min_def js_max_def js_less_def)
  show ?thesis
    by (simp add: fitScale_def Let_def view1_ids a b c)
qed

lemma hollow_autoZoom:
  "autoZoom (Some view1) hollow loaded = NonFinite (Num (6 / 5)) NaN NaN"
proof -
  have c: "imageLoaded loaded" "boundingBoxes hollow \<noteq> []" "\<not> truthy (maskUrl hollow)"
    by (simp_all add: loaded_def initial_def hollow_def truthy_def)
  have n: "js_add PosInf NegInf = NaN"
    by (simp add: js_ops)
  show ?thesis
    by (simp add: autoZoom_def c hollow_extent hollow_padded hollow_fitScale n Let_def store_def)
qed

lemma NaN_out_of_range: "\<not> (js_le (Num 1) NaN \<and> js_le NaN (Num 10))"
  by (simp add: js_le_def)

lemma NaN_kept:
  "wheelScaleJS NaN deltaY = NaN" "zoomInScaleJS NaN = NaN" "zoomOutScaleJS NaN = NaN"
  by (simp_all add: wheelScaleJS_def zoomInScaleJS_def zoomOutScaleJS_def)

lemma scaleJS_Num:
  "wheelScaleJS (Num k) deltaY = Num (min (max 1 (k * (if deltaY < 0 then 11 / 10 else 9 / 10))) 10)"
  "zoomInScaleJS (Num k) = Num (min (k * (12 / 10)) 10)"
  "zoomOutScaleJS (Num k) = Num (max (k / (12 / 10)) 1)"
  by (simp_all add: wheelScaleJS_def zoomInScaleJS_def zoomOutScaleJS_def)

lemma grow_bounds: "grow (bounds vs) c = bounds (vs @ [c])"
proof (cases "vs = []")
  case True
  then show ?thesis by (simp add: bounds_def grow_def)
next
  case False
  then have "fst ` set vs \<noteq> {}" "snd ` set vs \<noteq> {}" by simp_all
  then show ?thesis
    using False by (simp add: bounds_def grow_def Min_insert Max_insert min.commute max.commute
        del: Min_insert Max_insert) (simp add: min.commute max.commute)
qed

lemma foldl_grow_bounds: "foldl grow (bounds vs) cs = bounds (vs @ cs)"
proof (induction cs arbitrary: vs)
  case Nil
  then show ?case by simp
next
  case (Cons c cs)
  show ?case using Cons [of "vs @ [c]"] by (simp add: grow_bounds)
qed

lemma extent_fold_bounds:
  "foldl (\<lambda>acc box. foldl grow acc (coordinates box)) (bounds vs) boxes
   = bounds (vs @ vertices boxes)"
proof (induction boxes arbitrary: vs)
  case Nil
  then show ?case by (simp add: vertices_def)
next
  case (Cons b boxes)
  show ?case
    using Cons [of "vs @ coordinates b"] by (simp add: foldl_grow_bounds vertices_def)
qed

lemma extent_bounds: "extent boxes = bounds (vertices boxes)"
  using extent_fold_bounds [of "[]" boxes] by (simp add: extent_def bounds_def)

lemma vertices_nonempty:
  "list_ex (\<lambda>box. coordinates box \<noteq> []) boxes \<Longrightarrow> vertices boxes \<noteq> []"
  by (induction boxes) (auto simp: vertices_def)

lemma extent_Num:
  assumes "list_ex (\<lambda>box. coordinates box \<noteq> []) boxes"
  shows "extent boxes =
     (case spec_boundingBox boxes of (a, b, c, d) \<Rightarrow> (Num a, Num b, Num c, Num d))"
  using vertices_nonempty [OF assms]
  by (simp add: extent_bounds bounds_def spec_boundingBox_def)

lemma paddedBox_Num:
  "paddedBox v (Num a, Num b, Num c, Num d) =
     (Num (max 0 (a - max (c - a) (d - b) * (12 / 10))),
      Num (max 0 (b - max (c - a) (d - b) * (12 / 10))),
      Num (min (real (naturalWidth v)) (c + max (c - a) (d - b) * (12 / 10))),
      Num (min (real (naturalHeight v)) (d + max (c - a) (d - b) * (12 / 10))))"
  by (simp add: paddedBox_def Let_def)

lemma paddedBox_extent:
  assumes "list_ex (\<lambda>box. coordinates box \<noteq> []) boxes"
  shows "paddedBox v (extent boxes) =
     (case spec_paddedBox v boxes of (a, b, c, d) \<Rightarrow> (Num a, Num b, Num c, Num d))"
  by (simp add: extent_Num [OF assms] spec_paddedBox_def paddedBox_Num Let_def
        split: prod.splits)

lemma imageDisplayScale_Num:
  assumes "0 < naturalWidth v" "0 < naturalHeight v"
  shows "imageDisplayScale v = Num (spec_displayScale v)"
  using assms by (simp add: imageDisplayScale_def spec_displayScale_def)

lemma spec_displayScale_pos:
  assumes "0 < rect_width v" "0 < rect_height v" "0 < naturalWidth v" "0 < naturalHeight v"
  shows "0 < spec_displayScale v"
  using assms by (simp add: spec_displayScale_def)

lemma clamp_quotients:
  assumes "0 < x" "0 < y"
  shows "js_max (Num (12 / 10)) (js_min (js_min (js_div (Num x) (Num pw)) (js_div (Num y) (Num ph))) (Num 6))
     = Num (max (12 / 10)
             (if pw = 0 \<and> ph = 0 then 6
              else if pw = 0 then min (y / ph) 6
              else if ph = 0 then min (x / pw) 6
              else min (min (x / pw) (y / ph)) 6))"
  using assms by (simp add: js_div_pos_Num)

lemma fitScale_Num:
  assumes "0 < rect_width v" "0 < rect_height v" "0 < naturalWidth v" "0 < naturalHeight v"
    and "spec_paddedBox v boxes = (a, b, c, d)"
  shows "fitScale v (Num a, Num b, Num c, Num d) = Num (spec_fitScale v boxes)"
proof -
  have d: "0 < spec_displayScale v"
    using spec_displayScale_pos [OF assms(1-4)] .
  have n: "0 < rect_width v * (45 / 100)" "0 < rect_height v * (45 / 100)"
    using assms(1,2) by simp_all
  show ?thesis
    using clamp_quotients [OF n, of "(c - a) * spec_displayScale v" "(d - b) * spec_displayScale v"] d
    by (simp add: fitScale_def spec_fitScale_def assms(5) Let_def targetFillRatio_def
          imageDisplayScale_Num [OF assms(3,4)])
qed

lemma clamped_range:
  "x \<le> 6 \<Longrightarrow> 12 / 10 \<le> max (12 / 10) (x::real) \<and> max (12 / 10) x \<le> 6"
  by simp

lemma spec_fitScale_range: "12 / 10 \<le> spec_fitScale v boxes \<and> spec_fitScale v boxes \<le> 6"
proof -
  obtain a b c d where e: "spec_paddedBox v boxes = (a, b, c, d)"
    by (cases "spec_paddedBox v boxes") auto
  show ?thesis
    unfolding spec_fitScale_def e prod.case Let_def
    by (rule clamped_range) (simp only: min.cobounded2 order_refl if_split [where P = "\<lambda>x. x \<le> 6"] simp_thms)
qed

text \<open>
  On positive sizes and at least one vertex the effect stays within the finite numbers
  and stores the values of the real-number formulas.
\<close>

lemma autoZoom_finite:
  assumes "imageLoaded s" "\<not> truthy (maskUrl p)"
    and "list_ex (\<lambda>box. coordinates box \<noteq> []) (boundingBoxes p)"
    and "0 < rect_width v" "0 < rect_height v" "0 < naturalWidth v" "0 < naturalHeight v"
    and "spec_paddedBox v (boundingBoxes p) = (a, b, c, d)"
  shows "autoZoom (Some v) p s =
     Finite (s\<lparr>scale := spec_fitScale v (boundingBoxes p),
               translateX := rect_width v / 2 / spec_displayScale v
                             - (a + c) / 2 * spec_fitScale v (boundingBoxes p),
               translateY := rect_height v / 2 / spec_displayScale v
                             - (b + d) / 2 * spec_fitScale v (boundingBoxes p)\<rparr>)"
proof -
  have ne: "boundingBoxes p \<noteq> []"
    using assms(3) by auto
  have ds: "0 < spec_displayScale v"
    using spec_displayScale_pos [OF assms(4-7)] .
  have k: "0 < spec_fitScale v (boundingBoxes p)"
    using spec_fitScale_range [of v "boundingBoxes p"] by simp
  show ?thesis
    using ds k
    by (simp add: autoZoom_def assms(1,2) ne paddedBox_extent [OF assms(3)] assms(8)
          fitScale_Num [OF assms(4-8)] imageDisplayScale_Num [OF assms(6,7)] Let_def store_def)
qed


























subsection \<open>Scale bounds\<close>

lemma scale_setTranslate [simp]: "scale (setTranslate c s) = scale s"
  by (simp add: setTranslate_def)

lemma scale_onRegionSelect [simp]: "scale (onRegionSelect p r s) = scale s"
  by (simp add: onRegionSelect_def)

lemma scale_beginRegion [simp]: "scale (beginRegion vo p x y s) = scale s"
  by (simp add: beginRegion_def split: option.splits)

lemma scale_beginPan [simp]: "scale (beginPan v x y s) = scale s"
  by (simp add: beginPan_def)

lemma scale_drawRegion [simp]: "scale (drawRegion vo st x y s) = scale s"
  by (simp add: drawRegion_def split: option.splits)

lemma scale_pan [simp]: "scale (pan vo x y s) = scale s"
  by (simp add: pan_def Let_def split: option.splits)

lemma scale_finishRegion [simp]: "scale (finishRegion p r s) = scale s"
  by (simp add: finishRegion_def)

lemma scaleOk_initial: "scaleOk initial"
  by (simp add: scaleOk_def initial_def)

lemma scaleOk_onload: "scaleOk (onload s)"
  by (simp add: scaleOk_def onload_def)

lemma scaleOk_resetView: "scaleOk (resetView s)"
  by (simp add: scaleOk_def resetView_def)

lemma scaleOk_handleWheel: "scaleOk s \<Longrightarrow> scaleOk (handleWheel vo x y d s)"
  by (cases vo) (simp_all add: scaleOk_def handleWheel_def Let_def)

lemma scaleOk_zoomIn: "scaleOk s \<Longrightarrow> scaleOk (zoomIn vo s)"
  by (simp add: scaleOk_def zoomIn_def Let_def)

lemma scaleOk_zoomOut: "scaleOk s \<Longrightarrow> scaleOk (zoomOut vo s)"
  by (simp add: scaleOk_def zoomOut_def Let_def)

lemma scaleOk_handleMouseDown: "scaleOk s \<Longrightarrow> scaleOk (handleMouseDown vo p x y s)"
  by (cases vo) (simp_all add: scaleOk_def handleMouseDown_def)

lemma scaleOk_handleMouseMove: "scaleOk s \<Longrightarrow> scaleOk (handleMouseMove vo p x y s)"
  by (simp add: scaleOk_def handleMouseMove_def split: option.splits)

lemma scaleOk_handleMouseUp: "scaleOk s \<Longrightarrow> scaleOk (handleMouseUp p s)"
  by (simp add: scaleOk_def handleMouseUp_def split: option.splits)

lemma scaleOk_handleTouchStart: "scaleOk s \<Longrightarrow> scaleOk (handleTouchStart vo p ts s)"
  by (cases vo) (simp_all add: scaleOk_def handleTouchStart_def split: list.splits)

lemma scaleOk_pinch: "scaleOk s \<Longrightarrow> scaleOk (pinch v ts s)"
  by (simp add: scaleOk_def pinch_def Let_def)

lemma scaleOk_handleTouchMove: "scaleOk s \<Longrightarrow> scaleOk (handleTouchMove vo p ts s)"
  using scaleOk_pinch
  by (cases vo) (auto simp: scaleOk_def handleTouchMove_def split: list.splits option.splits)

lemma scaleOk_handleTouchEnd: "scaleOk s \<Longrightarrow> scaleOk (handleTouchEnd p ts s)"
  by (simp add: scaleOk_def handleTouchEnd_def split: option.splits)

lemma clamp_finite:
  "finite_value (js_max (Num (12 / 10)) (js_min x (Num 6))) = Some r \<Longrightarrow> 12 / 10 \<le> r \<and> r \<le> 6"
  by (cases x) (auto simp: js_min_def js_max_def js_less_def split: if_splits)

lemma fitScale_clamped: "\<exists>x. fitScale v b = js_max (Num (12 / 10)) (js_min x (Num 6))"
  by (cases b) (auto simp: fitScale_def Let_def)

lemma store_scale: "store s k tx ty = Finite s' \<Longrightarrow> finite_value k = Some (scale s')"
  by (auto simp: store_def split: option.splits)

lemma scaleOk_autoZoom:
  assumes "scaleOk s" "autoZoom vo p s = Finite s'"
  shows "scaleOk s'"
proof (cases vo)
  case None
  then show ?thesis using assms by (simp add: autoZoom_def)
next
  case (Some v)
  show ?thesis
  proof (cases "\<not> imageLoaded s \<or> boundingBoxes p = [] \<or> truthy (maskUrl p)")
    case True
    then show ?thesis
      using assms Some by (auto simp: autoZoom_def scaleOk_def split: if_splits)
  next
    case False
    obtain a b c d where e: "paddedBox v (extent (boundingBoxes p)) = (a, b, c, d)"
      by (cases "paddedBox v (extent (boundingBoxes p))") auto
    obtain x where x: "fitScale v (a, b, c, d) = js_max (Num (12 / 10)) (js_min x (Num 6))"
      using fitScale_clamped by blast
    have "\<exists>tx ty. store s (fitScale v (a, b, c, d)) tx ty = Finite s'"
      using assms(2) Some False by (auto simp: autoZoom_def e Let_def)
    then have "finite_value (js_max (Num (12 / 10)) (js_min x (Num 6))) = Some (scale s')"
      using store_scale x by fastforce
    then show ?thesis
      using clamp_finite by (fastforce simp: scaleOk_def)
  qed
qed

lemma autoZoom_defined:
  assumes "finiteInput (vo, p, Detections)"
  shows "\<exists>s'. autoZoom vo p s = Finite s'"
proof (cases vo)
  case None
  then show ?thesis by (simp add: autoZoom_def)
next
  case (Some v)
  show ?thesis
  proof (cases "\<not> imageLoaded s \<or> boundingBoxes p = [] \<or> truthy (maskUrl p)")
    case True
    then show ?thesis using Some by (auto simp: autoZoom_def)
  next
    case False
    then have h: "list_ex (\<lambda>box. coordinates box \<noteq> []) (boundingBoxes p)"
      "0 < rect_width v" "0 < rect_height v" "0 < naturalWidth v" "0 < naturalHeight v"
      using assms Some by (simp_all add: finiteInput_def)
    obtain a b c d where e: "spec_paddedBox v (boundingBoxes p) = (a, b, c, d)"
      by (cases "spec_paddedBox v (boundingBoxes p)") auto
    show ?thesis
      using autoZoom_finite [OF _ _ h e, of s] False Some by auto
  qed
qed

lemma step_scaleOk:
  assumes "scaleOk s" "finiteInput i"
  shows "\<exists>s'. step s i = Some s' \<and> scaleOk s'"
proof -
  obtain vo p e where i: "i = (vo, p, e)" by (cases i) auto
  show ?thesis
  proof (cases e)
    case Detections
    then obtain s' where "autoZoom vo p s = Finite s'"
      using autoZoom_defined assms(2) i by blast
    then show ?thesis
      using scaleOk_autoZoom [OF assms(1)] i Detections by simp
  qed (use assms(1) i in \<open>simp_all add: scaleOk_onload scaleOk_handleWheel scaleOk_zoomIn
        scaleOk_zoomOut scaleOk_resetView scaleOk_handleMouseDown scaleOk_handleMouseMove
        scaleOk_handleMouseUp scaleOk_handleTouchStart scaleOk_handleTouchMove
        scaleOk_handleTouchEnd\<close>)
qed

lemma run_scaleOk:
  "scaleOk s \<Longrightarrow> list_all finiteInput is \<Longrightarrow>
     \<exists>tr. run s is = Some tr \<and> length tr = length is \<and> list_all scaleOk tr"
proof (induction "is" arbitrary: s)
  case Nil
  then show ?case by simp
next
  case (Cons i "is")
  then obtain s' where s': "step s i = Some s'" "scaleOk s'"
    using step_scaleOk [of s i] by auto
  then obtain tr where "run s' is = Some tr" "length tr = length is" "list_all scaleOk tr"
    using Cons by auto
  then show ?case using s' by simp
qed

text \<open>
  Where every auto-zoom that reaches the computation has a vertex and positive sizes,
  every run from the initial state exists and keeps \<open>1 \<le> scale \<le> 10\<close> after every input.
\<close>

lemma finite_runs_bounded:
  assumes "list_all finiteInput inputs"
  shows "\<exists>tr. run initial inputs = Some tr \<and> length tr = length inputs
              \<and> list_all (\<lambda>s. 1 \<le> scale s \<and> scale s \<le> 10) tr"
  using run_scaleOk [OF scaleOk_initial assms] by (simp add: scaleOk_def [abs_def])

lemma session_ok: "list_all finiteInput session"
  by (simp add: session_def finiteInput_def found_def quad_def truthy_def view0_def)

lemma session_bounded:
  "\<exists>tr. run initial session = Some tr \<and> length tr = 10
        \<and> list_all (\<lambda>s. 1 \<le> scale s \<and> scale s \<le> 10) tr"
proof -
  have "length session = 10"
    by (simp add: session_def)
  then show ?thesis
    using finite_runs_bounded [OF session_ok] by (simp only:)
qed

lemma hidden_load: "step initial (Some hidden, found, Load) = Some loaded"
  by (simp add: onload_def loaded_def initial_def)

lemma zero_over_zero: "js_div (Num 0) (js_mul x (Num 0)) = NaN"
  by (cases x) (auto simp: js_mul_def js_div_def finite_result_def signed_zero_def)

lemma zero_rect_ids:
  assumes "rect_width v = 0" "rect_height v = 0" "0 < naturalWidth v" "0 < naturalHeight v"
  shows "imageDisplayScale v = Num 0"
  using assms by (simp add: imageDisplayScale_def)

lemma zero_rect_fitScale:
  assumes "rect_width v = 0" "rect_height v = 0" "0 < naturalWidth v" "0 < naturalHeight v"
  shows "fitScale v b = NaN"
proof -
  obtain minX minY maxX maxY where b: "b = (minX, minY, maxX, maxY)"
    by (cases b) auto
  have "js_mul (Num 0) (Num targetFillRatio) = Num 0"
    by (simp add: targetFillRatio_def)
  then show ?thesis
    unfolding b fitScale_def zero_rect_ids [OF assms] assms(1,2)
    by (simp add: Let_def zero_over_zero)
qed

text \<open>
  Claim C1: from the initial state the scale satisfies \<open>1 \<le> scale \<le> 10\<close> after every
  zoom update. The auto-zoom breaks it whenever it runs while the canvas has no box on
  screen: with the image loaded, at least one detection, no mask and a bounding rectangle
  of 0 by 0, the display scale is 0, both quotients are \<open>0 / 0\<close>, and
  \<open>Math.max(1.2, Math.min(NaN, 6))\<close> stores \<open>NaN\<close> as the scale (and as both
  translates), which is not between 1 and 10; the clamps of the wheel and of the two zoom
  buttons then keep \<open>NaN\<close>.
\<close>

theorem autoZoom_hidden_canvas:
  assumes "imageLoaded s" "boundingBoxes p \<noteq> []" "\<not> truthy (maskUrl p)"
    and "rect_width v = 0" "rect_height v = 0" "0 < naturalWidth v" "0 < naturalHeight v"
  shows "autoZoom (Some v) p s = NonFinite NaN NaN NaN
     \<and> step s (Some v, p, Detections) = None
     \<and> \<not> (js_le (Num 1) NaN \<and> js_le NaN (Num 10))
     \<and> wheelScaleJS NaN deltaY = NaN \<and> zoomInScaleJS NaN = NaN \<and> zoomOutScaleJS NaN = NaN"
proof -
  obtain minX minY maxX maxY
    where e: "paddedBox v (extent (boundingBoxes p)) = (minX, minY, maxX, maxY)"
    by (cases "paddedBox v (extent (boundingBoxes p))") auto
  have a: "autoZoom (Some v) p s = NonFinite NaN NaN NaN"
    using assms(1-3)
    by (simp add: autoZoom_def e Let_def zero_rect_fitScale [OF assms(4-7)]
        zero_rect_ids [OF assms(4-7)] assms(4,5) store_def)
  then have "step s (Some v, p, Detections) = None"
    by simp
  then show ?thesis
    using a NaN_out_of_range NaN_kept by simp
qed

text \<open>
  From the initial state: the load of a 1000 by 1000 image, then the auto-zoom on the
  detection \<open>100..300\<close> while the canvas rectangle is 0 by 0.
\<close>

theorem autoZoom_hidden_canvas_witness:
  "run initial [(Some hidden, found, Load)] = Some [loaded]
   \<and> imageLoaded loaded \<and> boundingBoxes found \<noteq> [] \<and> \<not> truthy (maskUrl found)
   \<and> rect_width hidden = 0 \<and> rect_height hidden = 0
   \<and> 0 < naturalWidth hidden \<and> 0 < naturalHeight hidden
   \<and> autoZoom (Some hidden) found loaded = NonFinite NaN NaN NaN
   \<and> run initial [(Some hidden, found, Load), (Some hidden, found, Detections)] = None
   \<and> wheelScaleJS NaN (- 1) = NaN \<and> wheelScaleJS NaN 1 = NaN
   \<and> zoomInScaleJS NaN = NaN \<and> zoomOutScaleJS NaN = NaN"
proof -
  have h: "imageLoaded loaded" "boundingBoxes found \<noteq> []" "\<not> truthy (maskUrl found)"
    "rect_width hidden = 0" "rect_height hidden = 0"
    "0 < naturalWidth hidden" "0 < naturalHeight hidden"
    by (simp_all add: loaded_def found_def truthy_def hidden_def)
  have l: "run initial [(Some hidden, found, Load)] = Some [loaded]"
    by (simp add: hidden_load del: step.simps)
  have st: "step loaded (Some hidden, found, Detections) = None"
    using autoZoom_hidden_canvas [OF h] by blast
  have d: "run initial [(Some hidden, found, Load), (Some hidden, found, Detections)] = None"
    by (simp add: hidden_load st del: step.simps)
  show ?thesis
    using autoZoom_hidden_canvas [OF h, of "- 1"] autoZoom_hidden_canvas [OF h, of 1] h l d
    by simp
qed

end
